theory Spec2Isabelle
  imports Complex_Main "HOL-Library.AList" "HOL-Library.Char_ord" "HOL-Library.List_Lexorder"
begin

section \<open>Common Python values\<close>

text \<open>
  Exceptions are values. Every constructor below is a subclass of Python's \<open>Exception\<close>,
  which is what the \<open>except Exception\<close> handlers of the services catch. Task cancellation
  (a \<open>BaseException\<close>) is outside the model.
  A Python \<open>float\<close> is modelled as a \<open>real\<close>: rounding error is not modelled.
  A Python \<open>str\<close> is a \<open>string\<close> of bytes (UTF-8).
\<close>

datatype py_error =
    Exception string
  | ZeroDivisionError
  | ValueError
  | IndexError
  | TypeError
  | HTTPException nat string

section \<open>Data source manager (services/data\_source\_manager.py)\<close>

datatype DataSource = EASTMONEY | SINA | TUSHARE

text \<open>The \<open>.value\<close> of each member of the enum.\<close>

fun source_value :: "DataSource \<Rightarrow> string" where
  "source_value EASTMONEY = ''eastmoney''"
| "source_value SINA = ''sina''"
| "source_value TUSHARE = ''tushare''"

definition SOURCE_PRIORITY :: "DataSource list" where
  "SOURCE_PRIORITY = [EASTMONEY, SINA, TUSHARE]"

text \<open>
  The three adapter methods the manager calls. They do network I/O, so they are parameters:
  each returns the list of bars or raises. Within one call of \<open>get_kline\<close> no adapter method
  is called twice, so a function of the arguments is enough.
\<close>

record 'b adapters =
  get_kline_eastmoney ::
    "string \<Rightarrow> string \<Rightarrow> string option \<Rightarrow> string option \<Rightarrow> int \<Rightarrow> py_error + 'b list"
  get_kline_sina :: "string \<Rightarrow> string \<Rightarrow> int \<Rightarrow> py_error + 'b list"
  get_daily_kline ::
    "string \<Rightarrow> string \<Rightarrow> string option \<Rightarrow> string option \<Rightarrow> py_error + 'b list"

text \<open>
  The dict \<open>get_kline\<close> returns: the keys \<open>ts_code\<close>, \<open>source\<close>, \<open>period\<close>, \<open>data\<close>, and
  the optional keys \<open>error\<close> and \<open>from_cache\<close> (\<open>None\<close> when the key is absent).
\<close>

record 'b kline_result =
  res_ts_code :: string
  res_source :: string
  res_period :: string
  res_data :: "'b list"
  res_error :: "string option"
  res_from_cache :: "bool option"

text \<open>The message of the exhausted result, as UTF-8 bytes (twelve CJK characters).\<close>

definition all_sources_failed_msg :: string where
  "all_sources_failed_msg =
     [CHR 0xE6, CHR 0x89, CHR 0x80, CHR 0xE6, CHR 0x9C, CHR 0x89, CHR 0xE6, CHR 0x95, CHR 0xB0,
      CHR 0xE6, CHR 0x8D, CHR 0xAE, CHR 0xE6, CHR 0xBA, CHR 0x90, CHR 0xE9, CHR 0x83, CHR 0xBD,
      CHR 0xE6, CHR 0x97, CHR 0xA0, CHR 0xE6, CHR 0xB3, CHR 0x95, CHR 0xE8, CHR 0x8E, CHR 0xB7,
      CHR 0xE5, CHR 0x8F, CHR 0x96, CHR 0xE6, CHR 0x95, CHR 0xB0, CHR 0xE6, CHR 0x8D, CHR 0xAE]"

definition get_fallback_sources :: "DataSource \<Rightarrow> DataSource list" where
  "get_fallback_sources current_source =
     filter (\<lambda>s. s \<noteq> current_source) SOURCE_PRIORITY"

definition fetch_kline_from_source ::
  "'b adapters \<Rightarrow> DataSource \<Rightarrow> string \<Rightarrow> string \<Rightarrow> string option \<Rightarrow> string option \<Rightarrow> int
     \<Rightarrow> py_error + 'b list" where
  "fetch_kline_from_source svc source ts_code period start_date end_date limit =
     (case source of
        EASTMONEY \<Rightarrow> get_kline_eastmoney svc ts_code period start_date end_date limit
      | SINA \<Rightarrow> get_kline_sina svc ts_code period limit
      | TUSHARE \<Rightarrow> get_daily_kline svc ts_code period start_date end_date)"

text \<open>
  The loop over the fallback sources. It returns the sources it called, in order, and the
  first non-empty list with the source that gave it. A raise and an empty list both go on
  to the next source.
\<close>

fun try_fallbacks ::
  "(DataSource \<Rightarrow> py_error + 'b list) \<Rightarrow> DataSource list
     \<Rightarrow> DataSource list \<times> (DataSource \<times> 'b list) option" where
  "try_fallbacks fetch [] = ([], None)"
| "try_fallbacks fetch (fallback # rest) =
     (case fetch fallback of
        Inr (k # ks) \<Rightarrow> ([fallback], Some (fallback, k # ks))
      | _ \<Rightarrow> (case try_fallbacks fetch rest of (tried, r) \<Rightarrow> (fallback # tried, r)))"

text \<open>
  \<open>DataSourceManager.get_kline\<close>. \<open>default_source\<close> is the manager's \<open>_default_source\<close>
  and \<open>source0\<close> the \<open>source\<close> argument. Beside the dict, the model returns the sources
  whose adapter was called, in the order of the calls.
\<close>

definition get_kline ::
  "'b adapters \<Rightarrow> DataSource \<Rightarrow> string \<Rightarrow> string \<Rightarrow> string option \<Rightarrow> string option
     \<Rightarrow> DataSource option \<Rightarrow> int \<Rightarrow> DataSource list \<times> 'b kline_result" where
  "get_kline svc default_source ts_code period start_date end_date source0 limit =
     (let source1 = (case source0 of Some s \<Rightarrow> s | None \<Rightarrow> default_source);
          source = (if period \<in> set [''1'', ''5'', ''15'', ''30'', ''60''] then EASTMONEY
                    else source1);
          fallback_sources = get_fallback_sources source;
          fetch = (\<lambda>s. fetch_kline_from_source svc s ts_code period start_date end_date limit)
      in case fetch source of
           Inr (k # ks) \<Rightarrow>
             ([source],
              \<lparr>res_ts_code = ts_code, res_source = source_value source, res_period = period,
               res_data = k # ks, res_error = None, res_from_cache = None\<rparr>)
         | _ \<Rightarrow>
             (case try_fallbacks fetch fallback_sources of
                (tried, Some (fallback, klines)) \<Rightarrow>
                  (source # tried,
                   \<lparr>res_ts_code = ts_code, res_source = source_value fallback,
                    res_period = period, res_data = klines, res_error = None,
                    res_from_cache = None\<rparr>)
              | (tried, None) \<Rightarrow>
                  (source # tried,
                   \<lparr>res_ts_code = ts_code, res_source = source_value source,
                    res_period = period, res_data = [],
                    res_error = Some all_sources_failed_msg, res_from_cache = None\<rparr>)))"

text \<open>
  Two readings of an adapter's outcome, used to state the properties: it \<open>failed\<close> when it
  raised or returned an empty list, and \<open>bars_of\<close> is the list it returned.
\<close>

definition failed :: "py_error + 'b list \<Rightarrow> bool" where
  "failed r = (case r of Inl e \<Rightarrow> True | Inr ks \<Rightarrow> ks = [])"

definition bars_of :: "py_error + 'b list \<Rightarrow> 'b list" where
  "bars_of r = (case r of Inl e \<Rightarrow> [] | Inr ks \<Rightarrow> ks)"

section \<open>In-process fallback store (core/cache.py, class InMemoryCache)\<close>

text \<open>
  The two dicts \<open>_cache\<close> and \<open>_expiry\<close> are association lists in insertion order:
  \<open>AList.update\<close> replaces the value of a key in place or appends a new key at the end, as
  assignment to a Python dict does, and \<open>AList.delete\<close> removes a key. Values of the store
  have any type \<open>'v\<close>. The clock \<open>datetime.now()\<close> is a parameter \<open>now\<close>, in microseconds;
  one call of a method reads it once.
\<close>

record 'v InMemoryCache =
  mem_cache :: "(string \<times> 'v) list"
  mem_expiry :: "(string \<times> int) list"
  mem_max_size :: int

text \<open>\<open>del self._cache[key]\<close> (where present) and \<open>del self._expiry[key]\<close> (where present).\<close>

definition del_key :: "string \<Rightarrow> 'v InMemoryCache \<Rightarrow> 'v InMemoryCache" where
  "del_key key c =
     c\<lparr>mem_cache := AList.delete key (mem_cache c),
       mem_expiry := AList.delete key (mem_expiry c)\<rparr>"

text \<open>
  \<open>int(self._max_size * 0.2)\<close>: the product truncated towards zero. The float product is
  taken as the exact fifth (true of every capacity below \<open>2^50\<close>).
\<close>

definition to_remove_of :: "int \<Rightarrow> int" where
  "to_remove_of m = (if 0 \<le> m then m div 5 else - ((- m) div 5))"

text \<open>The slice \<open>xs[:n]\<close>; a negative \<open>n\<close> counts from the end.\<close>

definition py_slice_to :: "int \<Rightarrow> 'a list \<Rightarrow> 'a list" where
  "py_slice_to n xs = (if 0 \<le> n then take (nat n) xs else take (nat (int (length xs) + n)) xs)"

definition InMemoryCache_cleanup :: "int \<Rightarrow> 'v InMemoryCache \<Rightarrow> 'v InMemoryCache" where
  "InMemoryCache_cleanup now c =
     (let expired_keys = map fst (filter (\<lambda>(k, v). v < now) (mem_expiry c));
          c1 = fold del_key expired_keys c
      in if mem_max_size c1 \<le> int (length (mem_cache c1)) then
           (let to_remove = to_remove_of (mem_max_size c1);
                keys_to_remove = py_slice_to to_remove (map fst (mem_cache c1))
            in fold del_key keys_to_remove c1)
         else c1)"

definition InMemoryCache_set ::
  "int \<Rightarrow> 'v InMemoryCache \<Rightarrow> string \<Rightarrow> 'v \<Rightarrow> int option \<Rightarrow> 'v InMemoryCache" where
  "InMemoryCache_set now c key val ex =
     (let c1 = (if mem_max_size c \<le> int (length (mem_cache c))
                then InMemoryCache_cleanup now c else c);
          c2 = c1\<lparr>mem_cache := AList.update key val (mem_cache c1)\<rparr>
      in case ex of
           None \<Rightarrow> c2
         | Some e \<Rightarrow>
             if e \<noteq> 0
             then c2\<lparr>mem_expiry := AList.update key (now + e * 1000000) (mem_expiry c2)\<rparr>
             else c2)"

definition InMemoryCache_get ::
  "int \<Rightarrow> 'v InMemoryCache \<Rightarrow> string \<Rightarrow> 'v InMemoryCache \<times> 'v option" where
  "InMemoryCache_get now c key =
     (case map_of (mem_cache c) key of
        None \<Rightarrow> (c, None)
      | Some v \<Rightarrow>
          (case map_of (mem_expiry c) key of
             None \<Rightarrow> (c, Some v)
           | Some e \<Rightarrow> if e < now then (del_key key c, None) else (c, Some v)))"

section \<open>Kline cache layer (services/kline\_storage.py)\<close>




text \<open>\<open>x or ''\<close> for an optional string.\<close>

definition or_empty :: "string option \<Rightarrow> string" where
  "or_empty x = (case x of None \<Rightarrow> [] | Some s \<Rightarrow> s)"


text \<open>
  The storage service's cache is the \<open>CacheService\<close> singleton running on its in-process
  store, or \<open>None\<close> when the import failed. \<open>get_json\<close> and \<open>set_json\<close> store the JSON text
  of a value; the model stores the value, \<open>json.loads (json.dumps v) = v\<close> being taken for
  granted on lists of bars.
\<close>

definition get_from_cache ::
  "int \<Rightarrow> 'b list InMemoryCache option \<Rightarrow> string
     \<Rightarrow> 'b list InMemoryCache option \<times> 'b list option" where
  "get_from_cache now st cache_key =
     (case st of
        None \<Rightarrow> (None, None)
      | Some c \<Rightarrow>
          (case InMemoryCache_get now c cache_key of
             (c', Some (b # bs)) \<Rightarrow> (Some c', Some (b # bs))
           | (c', _) \<Rightarrow> (Some c', None)))"





text \<open>
  \<open>KlineStorageService.batch_get_kline\<close>. The method it calls for each symbol,
  \<open>self.get_kline_with_storage(ts_code, period, source, limit)\<close>, is the parameter
  \<open>fetch\<close>: it takes the state of the process before the call and returns the state after
  it with the dict, or with the exception it raised. The result dict \<open>results\<close> is an
  association list in insertion order.
\<close>

fun batch_loop ::
  "('w \<Rightarrow> string \<Rightarrow> string \<Rightarrow> string \<Rightarrow> int \<Rightarrow> 'w \<times> (py_error + 'b kline_result))
     \<Rightarrow> string \<Rightarrow> string \<Rightarrow> int \<Rightarrow> 'w \<Rightarrow> string list \<Rightarrow> (string \<times> 'b list) list
     \<Rightarrow> 'w \<times> (string \<times> 'b list) list" where
  "batch_loop fetch period source limit w [] results = (w, results)"
| "batch_loop fetch period source limit w (ts_code # rest) results =
     (case fetch w ts_code period source limit of
        (w', Inr result) \<Rightarrow>
          batch_loop fetch period source limit w' rest
            (AList.update ts_code (res_data result) results)
      | (w', Inl e) \<Rightarrow>
          batch_loop fetch period source limit w' rest (AList.update ts_code [] results))"

definition batch_get_kline ::
  "('w \<Rightarrow> string \<Rightarrow> string \<Rightarrow> string \<Rightarrow> int \<Rightarrow> 'w \<times> (py_error + 'b kline_result))
     \<Rightarrow> 'w \<Rightarrow> string list \<Rightarrow> string \<Rightarrow> string \<Rightarrow> int \<Rightarrow> 'w \<times> (string \<times> 'b list) list" where
  "batch_get_kline fetch w ts_codes period source limit =
     batch_loop fetch period source limit w ts_codes []"

text \<open>
  The route \<open>/batch/kline\<close> (routers/data\_sources.py), from the list \<open>codes\<close> on: the
  comma-separated query string split, stripped and freed of empty items. The two detail
  messages are UTF-8 bytes.
\<close>

record 'b batch_response =
  resp_source :: string
  resp_period :: string
  resp_data :: "(string \<times> 'b list) list"

definition no_codes_msg :: string where
  "no_codes_msg =
     [CHR 0xE8, CHR 0xAF, CHR 0xB7, CHR 0xE6, CHR 0x8F, CHR 0x90, CHR 0xE4, CHR 0xBE, CHR 0x9B,
      CHR 0xE8, CHR 0x82, CHR 0xA1, CHR 0xE7, CHR 0xA5, CHR 0xA8, CHR 0xE4, CHR 0xBB, CHR 0xA3,
      CHR 0xE7, CHR 0xA0, CHR 0x81]"

definition too_many_codes_msg :: string where
  "too_many_codes_msg =
     [CHR 0xE6, CHR 0x9C, CHR 0x80, CHR 0xE5, CHR 0xA4, CHR 0x9A, CHR 0xE6, CHR 0x94, CHR 0xAF,
      CHR 0xE6, CHR 0x8C, CHR 0x81, CHR 0x32, CHR 0x30, CHR 0xE5, CHR 0x8F, CHR 0xAA, CHR 0xE8,
      CHR 0x82, CHR 0xA1, CHR 0xE7, CHR 0xA5, CHR 0xA8]"

definition batch_get_kline_route ::
  "('w \<Rightarrow> string \<Rightarrow> string \<Rightarrow> string \<Rightarrow> int \<Rightarrow> 'w \<times> (py_error + 'b kline_result))
     \<Rightarrow> DataSource \<Rightarrow> 'w \<Rightarrow> string list \<Rightarrow> string \<Rightarrow> string option \<Rightarrow> int
     \<Rightarrow> 'w \<times> (py_error + 'b batch_response)" where
  "batch_get_kline_route fetch default_source w codes period source limit =
     (if codes = [] then (w, Inl (HTTPException 400 no_codes_msg))
      else if 20 < length codes then (w, Inl (HTTPException 400 too_many_codes_msg))
      else
        (let src = (case source of
                      None \<Rightarrow> source_value default_source
                    | Some s \<Rightarrow> if s = [] then source_value default_source else s)
         in case batch_get_kline fetch w codes period src limit of
              (w', results) \<Rightarrow>
                (w', Inr \<lparr>resp_source = src, resp_period = period, resp_data = results\<rparr>)))"

text \<open>
  The calls \<open>batch_get_kline\<close> makes and what each returned, in order: used to state what
  the result map holds.
\<close>

fun batch_outcomes ::
  "('w \<Rightarrow> string \<Rightarrow> string \<Rightarrow> string \<Rightarrow> int \<Rightarrow> 'w \<times> (py_error + 'b kline_result))
     \<Rightarrow> string \<Rightarrow> string \<Rightarrow> int \<Rightarrow> 'w \<Rightarrow> string list
     \<Rightarrow> (string \<times> (py_error + 'b kline_result)) list" where
  "batch_outcomes fetch period source limit w [] = []"
| "batch_outcomes fetch period source limit w (ts_code # rest) =
     (ts_code, snd (fetch w ts_code period source limit)) #
       batch_outcomes fetch period source limit (fst (fetch w ts_code period source limit)) rest"

text \<open>The series the result map holds for an outcome: the empty list for a raise.\<close>

definition series_of :: "py_error + 'b kline_result \<Rightarrow> 'b list" where
  "series_of r = (case r of Inl e \<Rightarrow> [] | Inr result \<Rightarrow> res_data result)"

section \<open>Indicator engine (services/fin\_agent\_service.py)\<close>

text \<open>
  Window lengths (\<open>period\<close>, \<open>fast\<close>, \<open>slow\<close>, \<open>signal\<close>) are natural numbers. A test
  \<open>i < period - 1\<close> of the source is written \<open>i + 1 < period\<close>, which is the same test on
  Python's integers and is not touched by the truncated subtraction of \<open>nat\<close>.
\<close>

text \<open>The slice \<open>xs[i - period + 1 : i + 1]\<close>, for \<open>period \<le> i + 1\<close>.\<close>

definition window :: "'a list \<Rightarrow> nat \<Rightarrow> nat \<Rightarrow> 'a list" where
  "window xs period i = drop (i + 1 - period) (take (i + 1) xs)"

text \<open>
  \<open>round(x, 2)\<close>: to the nearest hundredth, a tie going to the even one. (On floats
  Python rounds the exact binary value; the model rounds the real number.)
\<close>

definition py_round2 :: "real \<Rightarrow> real" where
  "py_round2 x =
     (let y = x * 100; f = \<lfloor>y\<rfloor>; d = y - of_int f
      in of_int (if d < 1 / 2 then f else if 1 / 2 < d then f + 1
                 else if even f then f else f + 1) / 100)"

text \<open>\<open>max(xs)\<close> and \<open>min(xs)\<close>: \<open>ValueError\<close> on an empty list.\<close>

fun py_max :: "real list \<Rightarrow> py_error + real" where
  "py_max [] = Inl ValueError"
| "py_max (x # xs) = Inr (fold max xs x)"

fun py_min :: "real list \<Rightarrow> py_error + real" where
  "py_min [] = Inl ValueError"
| "py_min (x # xs) = Inr (fold min xs x)"

definition calculate_ma :: "real list \<Rightarrow> nat \<Rightarrow> py_error + real option list" where
  "calculate_ma prices period =
     (if period = 0 \<and> prices \<noteq> [] then Inl ZeroDivisionError
      else Inr (map (\<lambda>i. if i + 1 < period then None
                          else Some (sum_list (window prices period i) / real period))
                  [0..<length prices]))"

fun ema_loop :: "real \<Rightarrow> real \<Rightarrow> real list \<Rightarrow> real list" where
  "ema_loop multiplier prev [] = []"
| "ema_loop multiplier prev (p # ps) =
     ((p - prev) * multiplier + prev) # ema_loop multiplier ((p - prev) * multiplier + prev) ps"

definition calculate_ema :: "real list \<Rightarrow> nat \<Rightarrow> real list" where
  "calculate_ema prices period =
     (case prices of
        [] \<Rightarrow> []
      | p # ps \<Rightarrow> p # ema_loop (2 / (real period + 1)) p ps)"

record macd_result =
  macd_macd :: "real list"
  macd_signal :: "real list"
  macd_histogram :: "real list"

definition calculate_macd :: "real list \<Rightarrow> nat \<Rightarrow> nat \<Rightarrow> nat \<Rightarrow> macd_result" where
  "calculate_macd prices fast slow signal =
     (if length prices < slow
      then \<lparr>macd_macd = [], macd_signal = [], macd_histogram = []\<rparr>
      else
        (let ema_fast = calculate_ema prices fast;
             ema_slow = calculate_ema prices slow;
             macd_line = map (\<lambda>(f, s). f - s) (zip ema_fast ema_slow);
             signal_line = calculate_ema macd_line signal;
             histogram = map (\<lambda>(m, s). m - s) (zip macd_line signal_line)
         in \<lparr>macd_macd = macd_line, macd_signal = signal_line, macd_histogram = histogram\<rparr>))"

text \<open>The differences \<open>prices[i] - prices[i - 1]\<close> for \<open>i\<close> from 1.\<close>

fun price_changes :: "real list \<Rightarrow> real list" where
  "price_changes (a # b # rest) = (b - a) # price_changes (b # rest)"
| "price_changes [a] = []"
| "price_changes [] = []"

text \<open>The value appended for one pair of averages.\<close>

definition rsi_value :: "real \<Rightarrow> real \<Rightarrow> real" where
  "rsi_value avg_gain avg_loss =
     (if avg_loss = 0 then 100 else 100 - 100 / (1 + avg_gain / avg_loss))"

fun rsi_loop :: "nat \<Rightarrow> real \<Rightarrow> real \<Rightarrow> (real \<times> real) list \<Rightarrow> real option list" where
  "rsi_loop period avg_gain avg_loss [] = []"
| "rsi_loop period avg_gain avg_loss ((g, l) # rest) =
     Some (rsi_value ((avg_gain * (real period - 1) + g) / real period)
                     ((avg_loss * (real period - 1) + l) / real period)) #
     rsi_loop period ((avg_gain * (real period - 1) + g) / real period)
                     ((avg_loss * (real period - 1) + l) / real period) rest"

definition calculate_rsi :: "real list \<Rightarrow> nat \<Rightarrow> py_error + real option list" where
  "calculate_rsi prices period =
     (if length prices < period + 1 then Inr (replicate (length prices) None)
      else if period = 0 then Inl ZeroDivisionError
      else
        (let changes = price_changes prices;
             gains = map (\<lambda>change. if 0 < change then change else 0) changes;
             losses = map (\<lambda>change. if 0 < change then 0 else \<bar>change\<bar>) changes;
             avg_gain = sum_list (take period gains) / real period;
             avg_loss = sum_list (take period losses) / real period
         in Inr (replicate period None @ [Some (rsi_value avg_gain avg_loss)] @
                 rsi_loop period avg_gain avg_loss (drop period (zip gains losses)))))"

record kdj_result =
  kdj_k :: "real option list"
  kdj_d :: "real option list"
  kdj_j :: "real option list"

text \<open>\<open>xs[-1]\<close> of a list of optional numbers, used as a number.\<close>

definition last_value :: "real option list \<Rightarrow> py_error + real" where
  "last_value xs =
     (if xs = [] then Inl IndexError
      else case last xs of None \<Rightarrow> Inl TypeError | Some v \<Rightarrow> Inr v)"

text \<open>The body of the loop of \<open>calculate_kdj\<close> for the indices \<open>is\<close>, from the lists so far.\<close>

fun kdj_loop ::
  "real list \<Rightarrow> real list \<Rightarrow> real list \<Rightarrow> nat \<Rightarrow> nat list \<Rightarrow> kdj_result
     \<Rightarrow> py_error + kdj_result" where
  "kdj_loop high low close period [] acc = Inr acc"
| "kdj_loop high low close period (i # is) acc =
     (if i + 1 < period then
        kdj_loop high low close period is
          \<lparr>kdj_k = kdj_k acc @ [None], kdj_d = kdj_d acc @ [None], kdj_j = kdj_j acc @ [None]\<rparr>
      else
        (case py_max (window high period i) of
           Inl e \<Rightarrow> Inl e
         | Inr highest \<Rightarrow>
             (case py_min (window low period i) of
                Inl e \<Rightarrow> Inl e
              | Inr lowest \<Rightarrow>
                  (let rsv = (if highest = lowest then 50
                              else (close ! i - lowest) / (highest - lowest) * 100)
                   in if i + 1 = period then
                        kdj_loop high low close period is
                          \<lparr>kdj_k = kdj_k acc @ [Some (py_round2 rsv)],
                           kdj_d = kdj_d acc @ [Some (py_round2 rsv)],
                           kdj_j = kdj_j acc @ [Some (py_round2 (3 * rsv - 2 * rsv))]\<rparr>
                      else
                        (case last_value (kdj_k acc) of
                           Inl e \<Rightarrow> Inl e
                         | Inr pk \<Rightarrow>
                             (case last_value (kdj_d acc) of
                                Inl e \<Rightarrow> Inl e
                              | Inr pd \<Rightarrow>
                                  (let k = 2 / 3 * pk + 1 / 3 * rsv;
                                       d = 2 / 3 * pd + 1 / 3 * k
                                   in kdj_loop high low close period is
                                        \<lparr>kdj_k = kdj_k acc @ [Some (py_round2 k)],
                                         kdj_d = kdj_d acc @ [Some (py_round2 d)],
                                         kdj_j = kdj_j acc @ [Some (py_round2 (3 * k - 2 * d))]\<rparr>)))))))"

definition calculate_kdj ::
  "real list \<Rightarrow> real list \<Rightarrow> real list \<Rightarrow> nat \<Rightarrow> py_error + kdj_result" where
  "calculate_kdj high low close period =
     (if length close < period then Inr \<lparr>kdj_k = [], kdj_d = [], kdj_j = []\<rparr>
      else kdj_loop high low close period [0..<length close]
             \<lparr>kdj_k = [], kdj_d = [], kdj_j = []\<rparr>)"

record bollinger_result =
  bb_upper :: "real option list"
  bb_middle :: "real option list"
  bb_lower :: "real option list"

text \<open>The mean and the population standard deviation of a window of \<open>period\<close> prices.\<close>

definition window_ma :: "real list \<Rightarrow> nat \<Rightarrow> real" where
  "window_ma w period = sum_list w / real period"

definition window_std :: "real list \<Rightarrow> nat \<Rightarrow> real" where
  "window_std w period =
     sqrt (sum_list (map (\<lambda>x. (x - window_ma w period) ^ 2) w) / real period)"

definition calculate_bollinger_bands ::
  "real list \<Rightarrow> nat \<Rightarrow> real \<Rightarrow> py_error + bollinger_result" where
  "calculate_bollinger_bands prices period std_dev =
     (if length prices < period then Inr \<lparr>bb_upper = [], bb_middle = [], bb_lower = []\<rparr>
      else if period = 0 \<and> prices \<noteq> [] then Inl ZeroDivisionError
      else Inr
        \<lparr>bb_upper = map (\<lambda>i. if i + 1 < period then None
                 else Some (py_round2 (window_ma (window prices period i) period +
                                       std_dev * window_std (window prices period i) period)))
               [0..<length prices],
         bb_middle = map (\<lambda>i. if i + 1 < period then None
                 else Some (py_round2 (window_ma (window prices period i) period)))
               [0..<length prices],
         bb_lower = map (\<lambda>i. if i + 1 < period then None
                 else Some (py_round2 (window_ma (window prices period i) period -
                                       std_dev * window_std (window prices period i) period)))
               [0..<length prices]\<rparr>)"

text \<open>
  An output list aligned with a series of \<open>n\<close> points for a window of \<open>period\<close> points:
  it has \<open>n\<close> positions, and a position holds \<open>None\<close> exactly when it is one of the first
  \<open>period - 1\<close>.
\<close>

definition aligned :: "nat \<Rightarrow> nat \<Rightarrow> 'a option list \<Rightarrow> bool" where
  "aligned n period xs \<longleftrightarrow> length xs = n \<and> (\<forall>i<n. xs ! i = None \<longleftrightarrow> i + 1 < period)"

section \<open>Bar normalisation (services/akshare\_service.py)\<close>

text \<open>
  The raw dict handed to \<open>normalize_kline_data\<close>, by the keys the function reads. A field
  is \<open>None\<close> when the key is absent or holds \<open>None\<close>; dates are strings and the other
  values numbers, as the adapters build them.
\<close>

record raw_kline =
  raw_trade_date :: "string option"
  raw_date :: "string option"
  raw_open :: "real option"
  raw_high :: "real option"
  raw_low :: "real option"
  raw_close :: "real option"
  raw_vol :: "real option"
  raw_volume :: "real option"
  raw_amount :: "real option"
  raw_pct_chg :: "real option"

record bar =
  bar_trade_date :: string
  bar_date :: string
  bar_open :: real
  bar_high :: real
  bar_low :: real
  bar_close :: real
  bar_vol :: real
  bar_volume :: real
  bar_amount :: real
  bar_pct_chg :: real
  bar_source :: string

text \<open>\<open>a or b\<close> on optional strings and on optional numbers, and \<open>float(x or 0)\<close>.\<close>

definition str_or :: "string option \<Rightarrow> string option \<Rightarrow> string option" where
  "str_or a b = (case a of Some s \<Rightarrow> if s \<noteq> [] then Some s else b | None \<Rightarrow> b)"

definition num_or :: "real option \<Rightarrow> real option \<Rightarrow> real option" where
  "num_or a b = (case a of Some v \<Rightarrow> if v \<noteq> 0 then Some v else b | None \<Rightarrow> b)"

definition float_or_0 :: "real option \<Rightarrow> real" where
  "float_or_0 a = (case a of Some v \<Rightarrow> v | None \<Rightarrow> 0)"

text \<open>\<open>s.replace("-", "")\<close>.\<close>

definition replace_dash :: "string \<Rightarrow> string" where
  "replace_dash s = filter (\<lambda>c. c \<noteq> CHR ''-'') s"

definition normalize_kline_data :: "raw_kline \<Rightarrow> string \<Rightarrow> bar" where
  "normalize_kline_data kline source =
     (let date_value = replace_dash (or_empty (str_or (raw_trade_date kline) (raw_date kline)));
          vol_value = float_or_0 (num_or (raw_vol kline) (raw_volume kline))
      in \<lparr>bar_trade_date = date_value, bar_date = date_value,
          bar_open = float_or_0 (raw_open kline), bar_high = float_or_0 (raw_high kline),
          bar_low = float_or_0 (raw_low kline), bar_close = float_or_0 (raw_close kline),
          bar_vol = vol_value, bar_volume = vol_value,
          bar_amount = float_or_0 (raw_amount kline),
          bar_pct_chg = float_or_0 (raw_pct_chg kline), bar_source = source\<rparr>)"

text \<open>\<open>line.split(",")\<close>: the fields between the separators, empty fields kept.\<close>

fun split_on :: "char \<Rightarrow> string \<Rightarrow> string list" where
  "split_on sep [] = [[]]"
| "split_on sep (c # cs) =
     (if c = sep then [] # split_on sep cs
      else (case split_on sep cs of
              [] \<Rightarrow> [[c]]
            | p # ps \<Rightarrow> (c # p) # ps))"

text \<open>
  The dict \<open>raw_kline\<close> that \<open>get_kline_eastmoney\<close> builds from the fields of one line of
  at least seven fields. \<open>float_of\<close> is Python's \<open>float\<close> on a string, \<open>None\<close> where it
  raises \<open>ValueError\<close>.
\<close>

definition eastmoney_raw_kline ::
  "(string \<Rightarrow> real option) \<Rightarrow> string list \<Rightarrow> py_error + raw_kline" where
  "eastmoney_raw_kline float_of parts =
     (case (float_of (parts ! 1), float_of (parts ! 2), float_of (parts ! 3),
            float_of (parts ! 4), float_of (parts ! 5), float_of (parts ! 6),
            if 8 < length parts then float_of (parts ! 8) else Some 0) of
        (Some op, Some cl, Some hi, Some lo, Some vo, Some am, Some pc) \<Rightarrow>
          Inr \<lparr>raw_trade_date = None, raw_date = Some (replace_dash (parts ! 0)),
               raw_open = Some op, raw_high = Some hi, raw_low = Some lo, raw_close = Some cl,
               raw_vol = None, raw_volume = Some vo, raw_amount = Some am,
               raw_pct_chg = Some pc\<rparr>
      | _ \<Rightarrow> Inl ValueError)"

text \<open>
  The loop of \<open>get_kline_eastmoney\<close> over the lines of the response: a line of fewer than
  seven fields and a bar outside the requested dates are skipped; strings compare
  lexicographically.
\<close>

fun eastmoney_loop ::
  "(string \<Rightarrow> real option) \<Rightarrow> string option \<Rightarrow> string option \<Rightarrow> string list
     \<Rightarrow> py_error + bar list" where
  "eastmoney_loop float_of start_date end_date [] = Inr []"
| "eastmoney_loop float_of start_date end_date (line # rest) =
     (if length (split_on CHR '','' line) < 7
      then eastmoney_loop float_of start_date end_date rest
      else
        (case eastmoney_raw_kline float_of (split_on CHR '','' line) of
           Inl e \<Rightarrow> Inl e
         | Inr raw \<Rightarrow>
             if or_empty start_date \<noteq> [] \<and> or_empty (raw_date raw) < or_empty start_date
             then eastmoney_loop float_of start_date end_date rest
             else if or_empty end_date \<noteq> [] \<and> or_empty end_date < or_empty (raw_date raw)
             then eastmoney_loop float_of start_date end_date rest
             else
               (case eastmoney_loop float_of start_date end_date rest of
                  Inl e \<Rightarrow> Inl e
                | Inr klines \<Rightarrow> Inr (normalize_kline_data raw ''eastmoney'' # klines))))"

text \<open>
  What \<open>get_kline_eastmoney\<close> returns on a cache miss for the lines \<open>klines\<close> of the
  response: the normalised bars, and the empty list when there are no lines or anything
  raised.
\<close>

definition eastmoney_bars ::
  "(string \<Rightarrow> real option) \<Rightarrow> string option \<Rightarrow> string option \<Rightarrow> string list \<Rightarrow> bar list" where
  "eastmoney_bars float_of start_date end_date klines =
     (case eastmoney_loop float_of start_date end_date klines of
        Inl e \<Rightarrow> []
      | Inr bars \<Rightarrow> bars)"

text \<open>A string of decimal digits only.\<close>

definition all_digits :: "string \<Rightarrow> bool" where
  "all_digits s = list_all (\<lambda>c. CHR ''0'' \<le> c \<and> c \<le> CHR ''9'') s"

section \<open>Concrete inputs\<close>

text \<open>
  Adapters whose bars are plain numbers: \<open>svc0\<close> (eastmoney returns an empty list, sina
  and tushare return a bar), \<open>svc_raise\<close> (as \<open>svc0\<close>, but eastmoney raises) and \<open>svc_down\<close>
  (no provider gives a bar).
\<close>

definition svc0 :: "nat adapters" where
  "svc0 =
     \<lparr>get_kline_eastmoney = (\<lambda>ts_code period start_date end_date limit. Inr []),
      get_kline_sina = (\<lambda>ts_code period limit. Inr [7]),
      get_daily_kline = (\<lambda>ts_code period start_date end_date. Inr [8])\<rparr>"

definition svc_raise :: "nat adapters" where
  "svc_raise =
     \<lparr>get_kline_eastmoney =
        (\<lambda>ts_code period start_date end_date limit. Inl (Exception ''timeout'')),
      get_kline_sina = (\<lambda>ts_code period limit. Inr [7]),
      get_daily_kline = (\<lambda>ts_code period start_date end_date. Inr [8])\<rparr>"

definition svc_down :: "nat adapters" where
  "svc_down =
     \<lparr>get_kline_eastmoney =
        (\<lambda>ts_code period start_date end_date limit. Inl (Exception ''timeout'')),
      get_kline_sina = (\<lambda>ts_code period limit. Inr []),
      get_daily_kline = (\<lambda>ts_code period start_date end_date. Inl (Exception ''no token''))\<rparr>"




text \<open>
  A per-symbol fetch that records the symbols it was called for, raises for the symbol
  \<open>B\<close> and returns a one-bar series for any other.
\<close>

definition logging_fetch ::
  "string list \<Rightarrow> string \<Rightarrow> string \<Rightarrow> string \<Rightarrow> int
     \<Rightarrow> string list \<times> (py_error + nat kline_result)" where
  "logging_fetch w ts_code period source limit =
     (w @ [ts_code],
      if ts_code = ''B'' then Inl (Exception ''boom'')
      else Inr \<lparr>res_ts_code = ts_code, res_source = source, res_period = period,
                res_data = [length ts_code], res_error = None, res_from_cache = Some False\<rparr>)"

text \<open>
  Full stores: of capacity 4 with no expiry; of capacity 5 with the entry \<open>c\<close> expired at
  time 100; of capacity 5 with no entry expired at time 100.
\<close>

definition full4 :: "nat InMemoryCache" where
  "full4 =
     \<lparr>mem_cache = [(''a'', 1), (''b'', 2), (''c'', 3), (''d'', 4)], mem_expiry = [],
      mem_max_size = 4\<rparr>"

definition full5 :: "nat InMemoryCache" where
  "full5 =
     \<lparr>mem_cache = [(''a'', 1), (''b'', 2), (''c'', 3), (''d'', 4), (''e'', 5)],
      mem_expiry = [(''c'', 50), (''d'', 500)], mem_max_size = 5\<rparr>"

definition full5_fresh :: "nat InMemoryCache" where
  "full5_fresh =
     \<lparr>mem_cache = [(''a'', 1), (''b'', 2), (''c'', 3), (''d'', 4), (''e'', 5)],
      mem_expiry = [(''c'', 500), (''d'', 500)], mem_max_size = 5\<rparr>"

text \<open>Price series.\<close>

definition rising15 :: "real list" where
  "rising15 = [1, 2, 3, 4, 5, 6, 7, 8, 9, 10, 11, 12, 13, 14, 15]"

definition one_to_twenty :: "real list" where
  "one_to_twenty = [1, 2, 3, 4, 5, 6, 7, 8, 9, 10, 11, 12, 13, 14, 15, 16, 17, 18, 19, 20]"

text \<open>
  One line of a five-minute response of eastmoney (date and time, open, close, high, low,
  volume, amount, amplitude, change in percent, change, turnover), and Python's \<open>float\<close>
  on the fields of that line that the adapter converts.
\<close>

definition minute_line :: string where
  "minute_line = ''2024-01-02 09:35,10.00,10.10,10.20,9.90,1000,10050.00,3.00,1.00,0.10,0.50''"

definition float_table :: "string \<Rightarrow> real option" where
  "float_table =
     map_of [(''10.00'', 10), (''10.10'', 101 / 10), (''10.20'', 51 / 5), (''9.90'', 99 / 10),
             (''1000'', 1000), (''10050.00'', 10050), (''1.00'', 1)]"

section \<open>Properties of the data source manager\<close>

lemma failed_cases:
  obtains (raised) e where "r = Inl e" | (empty) "r = Inr []" | (bars) k ks where "r = Inr (k # ks)"
proof (cases r)
  case (Inl e) then show ?thesis using raised by blast
next
  case (Inr ks) then show ?thesis using empty bars by (cases ks) blast+
qed

lemma failed_simps [simp]:
  "failed (Inl e)" "failed (Inr [])" "\<not> failed (Inr (k # ks))"
  by (simp_all add: failed_def)

lemma bars_of_simps [simp]:
  "bars_of (Inl e) = []" "bars_of (Inr ks) = ks"
  by (simp_all add: bars_of_def)

lemma failed_iff_no_bars: "failed r \<longleftrightarrow> bars_of r = []"
  by (cases r rule: failed_cases) simp_all

lemma try_fallbacks_eq:
  "try_fallbacks fetch ss =
     (case find (\<lambda>s. \<not> failed (fetch s)) ss of
        None \<Rightarrow> (ss, None)
      | Some s \<Rightarrow> (takeWhile (\<lambda>s. failed (fetch s)) ss @ [s], Some (s, bars_of (fetch s))))"
proof (induction ss)
  case Nil
  show ?case by simp
next
  case (Cons a ss)
  show ?case
    by (cases "fetch a" rule: failed_cases) (simp_all add: Cons.IH split: option.split)
qed

lemma get_kline_eq:
  assumes src: "src = (if period \<in> set [''1'', ''5'', ''15'', ''30'', ''60''] then EASTMONEY
                       else case source0 of Some s \<Rightarrow> s | None \<Rightarrow> default_source)"
  shows "get_kline svc default_source ts_code period start_date end_date source0 limit =
     (case find (\<lambda>s. \<not> failed (fetch_kline_from_source svc s ts_code period start_date end_date limit))
             (src # get_fallback_sources src) of
        Some s \<Rightarrow>
          (takeWhile (\<lambda>s. failed (fetch_kline_from_source svc s ts_code period start_date end_date limit))
             (src # get_fallback_sources src) @ [s],
           \<lparr>res_ts_code = ts_code, res_source = source_value s, res_period = period,
            res_data = bars_of (fetch_kline_from_source svc s ts_code period start_date end_date limit),
            res_error = None, res_from_cache = None\<rparr>)
      | None \<Rightarrow>
          (src # get_fallback_sources src,
           \<lparr>res_ts_code = ts_code, res_source = source_value src, res_period = period,
            res_data = [], res_error = Some all_sources_failed_msg,
            res_from_cache = None\<rparr>))"
proof -
  have h: "get_kline svc default_source ts_code period start_date end_date source0 limit =
     (case fetch_kline_from_source svc src ts_code period start_date end_date limit of
           Inr (k # ks) \<Rightarrow>
             ([src],
              \<lparr>res_ts_code = ts_code, res_source = source_value src, res_period = period,
               res_data = k # ks, res_error = None, res_from_cache = None\<rparr>)
         | _ \<Rightarrow>
             (case try_fallbacks (\<lambda>s. fetch_kline_from_source svc s ts_code period start_date end_date limit)
                     (get_fallback_sources src) of
                (tried, Some (fallback, klines)) \<Rightarrow>
                  (src # tried,
                   \<lparr>res_ts_code = ts_code, res_source = source_value fallback, res_period = period,
                    res_data = klines, res_error = None, res_from_cache = None\<rparr>)
              | (tried, None) \<Rightarrow>
                  (src # tried,
                   \<lparr>res_ts_code = ts_code, res_source = source_value src, res_period = period,
                    res_data = [], res_error = Some all_sources_failed_msg,
                    res_from_cache = None\<rparr>)))"
    unfolding get_kline_def Let_def src by (rule refl)
  show ?thesis
  proof (cases "fetch_kline_from_source svc src ts_code period start_date end_date limit"
      rule: failed_cases)
    case (raised e)
    then show ?thesis by (simp add: h try_fallbacks_eq split: option.split)
  next
    case empty
    then show ?thesis by (simp add: h try_fallbacks_eq split: option.split)
  next
    case (bars k ks)
    then show ?thesis by (simp add: h)
  qed
qed

lemma get_fallback_sources_simps:
  "get_fallback_sources EASTMONEY = [SINA, TUSHARE]"
  "get_fallback_sources SINA = [EASTMONEY, TUSHARE]"
  "get_fallback_sources TUSHARE = [EASTMONEY, SINA]"
  by (simp_all add: get_fallback_sources_def SOURCE_PRIORITY_def)

lemma primary_and_fallbacks_cover: "set (s # get_fallback_sources s) = UNIV"
proof -
  have "x \<in> set (s # get_fallback_sources s)" for x
    by (cases s; cases x) (simp_all add: get_fallback_sources_simps)
  then show ?thesis by blast
qed

lemma hd_attempted:
  assumes src: "src = (if period \<in> set [''1'', ''5'', ''15'', ''30'', ''60''] then EASTMONEY
                       else case source0 of Some s \<Rightarrow> s | None \<Rightarrow> default_source)"
  shows "hd (fst (get_kline svc default_source ts_code period start_date end_date source0 limit)) = src"
  by (simp add: get_kline_eq [OF src] split: option.split)

text \<open>
  C1: for a period among \<open>1\<close>, \<open>5\<close>, \<open>15\<close>, \<open>30\<close>, \<open>60\<close>, the first adapter
  \<open>get_kline\<close> calls is eastmoney's, whatever source was requested and whatever the
  default source is: the call is the call with eastmoney requested and eastmoney as default.
\<close>

theorem minute_period_forces_eastmoney:
  assumes "period \<in> set [''1'', ''5'', ''15'', ''30'', ''60'']"
  shows "hd (fst (get_kline svc default_source ts_code period start_date end_date source0 limit))
           = EASTMONEY \<and>
         get_kline svc default_source ts_code period start_date end_date source0 limit
           = get_kline svc EASTMONEY ts_code period start_date end_date (Some EASTMONEY) limit"
proof -
  have a: "EASTMONEY = (if period \<in> set [''1'', ''5'', ''15'', ''30'', ''60''] then EASTMONEY
                       else case source0 of Some s \<Rightarrow> s | None \<Rightarrow> default_source)"
    using assms by simp
  have b: "EASTMONEY = (if period \<in> set [''1'', ''5'', ''15'', ''30'', ''60''] then EASTMONEY
                       else case Some EASTMONEY of Some s \<Rightarrow> s | None \<Rightarrow> EASTMONEY)"
    by simp
  have 1: "hd (fst (get_kline svc default_source ts_code period start_date end_date source0 limit))
           = EASTMONEY"
    by (rule hd_attempted [OF a])
  have 2: "get_kline svc default_source ts_code period start_date end_date source0 limit
           = get_kline svc EASTMONEY ts_code period start_date end_date (Some EASTMONEY) limit"
    by (simp only: get_kline_eq [OF a] get_kline_eq [OF b])
  from 1 2 show ?thesis by (rule conjI)
qed

theorem minute_period_forces_eastmoney_witness:
  "hd (fst (get_kline svc0 SINA ''000001.SZ'' ''5'' None None (Some TUSHARE) 500)) = EASTMONEY \<and>
   get_kline svc0 SINA ''000001.SZ'' ''5'' None None (Some TUSHARE) 500
     = get_kline svc0 EASTMONEY ''000001.SZ'' ''5'' None None (Some EASTMONEY) 500 \<and>
   get_kline svc0 SINA ''000001.SZ'' ''5'' None None (Some TUSHARE) 500
     = ([EASTMONEY, SINA],
        \<lparr>res_ts_code = ''000001.SZ'', res_source = ''sina'', res_period = ''5'',
         res_data = [7], res_error = None, res_from_cache = None\<rparr>)"
proof -
  have p: "''5'' \<in> set [''1'', ''5'', ''15'', ''30'', ''60'']" by simp
  have "get_kline svc0 EASTMONEY ''000001.SZ'' ''5'' None None (Some EASTMONEY) 500
     = ([EASTMONEY, SINA],
        \<lparr>res_ts_code = ''000001.SZ'', res_source = ''sina'', res_period = ''5'',
         res_data = [7], res_error = None, res_from_cache = None\<rparr>)"
    by (simp add: get_kline_def svc0_def fetch_kline_from_source_def get_fallback_sources_simps)
  then show ?thesis
    using minute_period_forces_eastmoney [OF p, of svc0 SINA "''000001.SZ''" None None "Some TUSHARE" 500]
    by simp
qed

text \<open>
  C2: when every provider raises or returns an empty list (the primary source and its
  fallbacks are all three providers, \<open>primary_and_fallbacks_cover\<close>), \<open>get_kline\<close> returns
  the dict with the requested \<open>ts_code\<close> and \<open>period\<close>, an empty \<open>data\<close> list and the
  non-empty message under \<open>error\<close>, after calling all three. \<open>get_kline\<close> is a total
  function into dicts: no exception leaves it.
\<close>

theorem all_providers_exhausted:
  assumes "\<forall>s. failed (fetch_kline_from_source svc s ts_code period start_date end_date limit)"
  shows "snd (get_kline svc default_source ts_code period start_date end_date source0 limit) =
           \<lparr>res_ts_code = ts_code,
            res_source = source_value
              (hd (fst (get_kline svc default_source ts_code period start_date end_date source0 limit))),
            res_period = period, res_data = [],
            res_error = Some all_sources_failed_msg, res_from_cache = None\<rparr> \<and>
         all_sources_failed_msg \<noteq> [] \<and>
         set (fst (get_kline svc default_source ts_code period start_date end_date source0 limit)) = UNIV"
proof -
  define src where "src = (if period \<in> set [''1'', ''5'', ''15'', ''30'', ''60''] then EASTMONEY
                       else case source0 of Some s \<Rightarrow> s | None \<Rightarrow> default_source)"
  have none: "find (\<lambda>s. \<not> failed (fetch_kline_from_source svc s ts_code period start_date end_date limit))
             (src # get_fallback_sources src) = None"
    using assms by (simp add: find_None_iff)
  have eq: "get_kline svc default_source ts_code period start_date end_date source0 limit =
          (src # get_fallback_sources src,
           \<lparr>res_ts_code = ts_code, res_source = source_value src, res_period = period,
            res_data = [], res_error = Some all_sources_failed_msg,
            res_from_cache = None\<rparr>)"
    by (simp only: get_kline_eq [OF src_def] none option.case)
  have msg: "all_sources_failed_msg \<noteq> []"
    by (simp add: all_sources_failed_msg_def)
  show ?thesis
    unfolding eq using msg primary_and_fallbacks_cover [of src] by simp
qed

theorem all_providers_exhausted_witness:
  "get_kline svc_down EASTMONEY ''000001.SZ'' ''daily'' None None None 500 =
     ([EASTMONEY, SINA, TUSHARE],
      \<lparr>res_ts_code = ''000001.SZ'', res_source = ''eastmoney'', res_period = ''daily'',
       res_data = [], res_error = Some all_sources_failed_msg, res_from_cache = None\<rparr>) \<and>
   snd (get_kline svc_down EASTMONEY ''000001.SZ'' ''daily'' None None None 500) =
     \<lparr>res_ts_code = ''000001.SZ'',
      res_source = source_value
        (hd (fst (get_kline svc_down EASTMONEY ''000001.SZ'' ''daily'' None None None 500))),
      res_period = ''daily'', res_data = [],
      res_error = Some all_sources_failed_msg, res_from_cache = None\<rparr>"
proof -
  have h: "\<forall>s. failed (fetch_kline_from_source svc_down s ''000001.SZ'' ''daily'' None None 500)"
  proof
    fix s show "failed (fetch_kline_from_source svc_down s ''000001.SZ'' ''daily'' None None 500)"
      by (cases s) (simp_all add: fetch_kline_from_source_def svc_down_def failed_def)
  qed
  have e: "get_kline svc_down EASTMONEY ''000001.SZ'' ''daily'' None None None 500 =
     ([EASTMONEY, SINA, TUSHARE],
      \<lparr>res_ts_code = ''000001.SZ'', res_source = ''eastmoney'', res_period = ''daily'',
       res_data = [], res_error = Some all_sources_failed_msg, res_from_cache = None\<rparr>)"
    by (simp add: get_kline_def svc_down_def fetch_kline_from_source_def get_fallback_sources_simps)
  from all_providers_exhausted [OF h, of EASTMONEY None] e show ?thesis
    by blast
qed

text \<open>
  C3: when the primary source raises or returns an empty list, \<open>get_kline\<close> goes through
  the other sources in the order eastmoney, sina, tushare, the primary left out, and stops
  at the first that returns a non-empty list: the dict holds that list and names that
  source under \<open>source\<close>, and the adapters called are the primary, the fallbacks that
  failed before it, and it. A raise and an empty list are the same to \<open>get_kline\<close>: two
  sets of adapters that return the same bars, a raise counted as no bars, give the same
  result.
\<close>

theorem fallback_in_priority_order:
  assumes primary: "primary = hd (fst (get_kline svc default_source ts_code period start_date end_date source0 limit))"
    and fails: "failed (fetch_kline_from_source svc primary ts_code period start_date end_date limit)"
  shows "get_fallback_sources primary = filter (\<lambda>s. s \<noteq> primary) [EASTMONEY, SINA, TUSHARE] \<and>
    get_kline svc default_source ts_code period start_date end_date source0 limit =
      (case find (\<lambda>s. \<not> failed (fetch_kline_from_source svc s ts_code period start_date end_date limit))
              (get_fallback_sources primary) of
         Some s \<Rightarrow>
           (primary #
              takeWhile (\<lambda>s. failed (fetch_kline_from_source svc s ts_code period start_date end_date limit))
                (get_fallback_sources primary) @ [s],
            \<lparr>res_ts_code = ts_code, res_source = source_value s, res_period = period,
             res_data = bars_of (fetch_kline_from_source svc s ts_code period start_date end_date limit),
             res_error = None, res_from_cache = None\<rparr>)
       | None \<Rightarrow>
           (primary # get_fallback_sources primary,
            \<lparr>res_ts_code = ts_code, res_source = source_value primary, res_period = period,
             res_data = [], res_error = Some all_sources_failed_msg, res_from_cache = None\<rparr>)) \<and>
    (\<forall>svc'. (\<forall>s. bars_of (fetch_kline_from_source svc' s ts_code period start_date end_date limit) =
                    bars_of (fetch_kline_from_source svc s ts_code period start_date end_date limit)) \<longrightarrow>
        get_kline svc' default_source ts_code period start_date end_date source0 limit =
        get_kline svc default_source ts_code period start_date end_date source0 limit)"
proof -
  define src where "src = (if period \<in> set [''1'', ''5'', ''15'', ''30'', ''60''] then EASTMONEY
                       else case source0 of Some s \<Rightarrow> s | None \<Rightarrow> default_source)"
  have p: "primary = src"
    unfolding primary by (rule hd_attempted [OF src_def])
  have 1: "get_fallback_sources primary = filter (\<lambda>s. s \<noteq> primary) [EASTMONEY, SINA, TUSHARE]"
    by (simp add: get_fallback_sources_def SOURCE_PRIORITY_def)
  have 2: "get_kline svc default_source ts_code period start_date end_date source0 limit =
      (case find (\<lambda>s. \<not> failed (fetch_kline_from_source svc s ts_code period start_date end_date limit))
              (get_fallback_sources primary) of
         Some s \<Rightarrow>
           (primary #
              takeWhile (\<lambda>s. failed (fetch_kline_from_source svc s ts_code period start_date end_date limit))
                (get_fallback_sources primary) @ [s],
            \<lparr>res_ts_code = ts_code, res_source = source_value s, res_period = period,
             res_data = bars_of (fetch_kline_from_source svc s ts_code period start_date end_date limit),
             res_error = None, res_from_cache = None\<rparr>)
       | None \<Rightarrow>
           (primary # get_fallback_sources primary,
            \<lparr>res_ts_code = ts_code, res_source = source_value primary, res_period = period,
             res_data = [], res_error = Some all_sources_failed_msg, res_from_cache = None\<rparr>))"
    using fails unfolding p
    by (simp add: get_kline_eq [OF src_def] split: option.split)
  have 3: "get_kline svc' default_source ts_code period start_date end_date source0 limit =
        get_kline svc default_source ts_code period start_date end_date source0 limit"
    if "\<forall>s. bars_of (fetch_kline_from_source svc' s ts_code period start_date end_date limit) =
                    bars_of (fetch_kline_from_source svc s ts_code period start_date end_date limit)"
    for svc'
    by (simp only: get_kline_eq [OF src_def] failed_iff_no_bars that)
  from 1 2 3 show ?thesis by blast
qed

theorem fallback_in_priority_order_witness:
  "get_kline svc0 EASTMONEY ''000001.SZ'' ''daily'' None None None 500 =
     ([EASTMONEY, SINA],
      \<lparr>res_ts_code = ''000001.SZ'', res_source = ''sina'', res_period = ''daily'',
       res_data = [7], res_error = None, res_from_cache = None\<rparr>) \<and>
   get_kline svc_raise EASTMONEY ''000001.SZ'' ''daily'' None None None 500 =
     get_kline svc0 EASTMONEY ''000001.SZ'' ''daily'' None None None 500"
proof -
  have h: "EASTMONEY = hd (fst (get_kline svc0 EASTMONEY ''000001.SZ'' ''daily'' None None None 500))"
    by (simp add: get_kline_def svc0_def fetch_kline_from_source_def get_fallback_sources_simps)
  have f: "failed (fetch_kline_from_source svc0 EASTMONEY ''000001.SZ'' ''daily'' None None 500)"
    by (simp add: fetch_kline_from_source_def svc0_def)
  have b: "\<forall>s. bars_of (fetch_kline_from_source svc_raise s ''000001.SZ'' ''daily'' None None 500) =
               bars_of (fetch_kline_from_source svc0 s ''000001.SZ'' ''daily'' None None 500)"
  proof
    fix s
    show "bars_of (fetch_kline_from_source svc_raise s ''000001.SZ'' ''daily'' None None 500) =
               bars_of (fetch_kline_from_source svc0 s ''000001.SZ'' ''daily'' None None 500)"
      by (cases s) (simp_all add: fetch_kline_from_source_def svc0_def svc_raise_def)
  qed
  have fs: "\<not> failed (fetch_kline_from_source svc0 SINA ''000001.SZ'' ''daily'' None None 500)"
       "bars_of (fetch_kline_from_source svc0 SINA ''000001.SZ'' ''daily'' None None 500) = [7]"
    by (simp_all add: fetch_kline_from_source_def svc0_def)
  note t = fallback_in_priority_order [OF h f]
  have "get_kline svc0 EASTMONEY ''000001.SZ'' ''daily'' None None None 500 =
     ([EASTMONEY, SINA],
      \<lparr>res_ts_code = ''000001.SZ'', res_source = ''sina'', res_period = ''daily'',
       res_data = [7], res_error = None, res_from_cache = None\<rparr>)"
    using t fs by (simp add: get_fallback_sources_simps)
  moreover have "get_kline svc_raise EASTMONEY ''000001.SZ'' ''daily'' None None None 500 =
     get_kline svc0 EASTMONEY ''000001.SZ'' ''daily'' None None None 500"
    using t b by blast
  ultimately show ?thesis by (rule conjI)
qed

section \<open>Properties of the kline cache layer\<close>





lemma get_from_cache_None: "get_from_cache now None key = (None, None)"
  by (simp add: get_from_cache_def)









section \<open>Properties of the batch fetch\<close>

lemma map_fst_batch_outcomes [simp]:
  "map fst (batch_outcomes fetch period source limit w cs) = cs"
  by (induction cs arbitrary: w) simp_all

lemma batch_loop_eq:
  "snd (batch_loop fetch period source limit w cs acc) =
     fold (\<lambda>(c, oc). AList.update c (series_of oc))
       (batch_outcomes fetch period source limit w cs) acc"
proof (induction cs arbitrary: w acc)
  case Nil
  show ?case by simp
next
  case (Cons c cs)
  obtain w' o' where f: "fetch w c period source limit = (w', o')"
    by (cases "fetch w c period source limit") blast
  show ?case
    by (cases o') (simp_all add: f Cons.IH series_of_def)
qed

lemma update_fresh: "k \<notin> fst ` set al \<Longrightarrow> AList.update k v al = al @ [(k, v)]"
  by (induction al) auto

lemma fold_update_keys:
  "fst ` set (fold (\<lambda>(c, oc). AList.update c (f oc)) xs acc) = fst ` set xs \<union> fst ` set acc"
proof (induction xs arbitrary: acc)
  case Nil show ?case by simp
next
  case (Cons x xs)
  show ?case by (cases x) (simp add: Cons.IH dom_update Un_ac)
qed

lemma fold_update_distinct:
  "distinct (map fst acc) \<Longrightarrow> distinct (map fst (fold (\<lambda>(c, oc). AList.update c (f oc)) xs acc))"
proof (induction xs arbitrary: acc)
  case Nil then show ?case by simp
next
  case (Cons x xs)
  then show ?case by (cases x) (simp add: distinct_update)
qed

lemma fold_update_map_of:
  "map_of (fold (\<lambda>(c, oc). AList.update c (f oc)) xs acc) =
     map_of (rev (map (\<lambda>(c, oc). (c, f oc)) xs) @ acc)"
proof (induction xs arbitrary: acc)
  case Nil show ?case by simp
next
  case (Cons x xs)
  show ?case
    by (cases x) (simp add: Cons.IH update_conv' map_add_def fun_eq_iff split: option.split)
qed

lemma fold_update_fresh:
  "distinct (map fst xs) \<Longrightarrow> fst ` set xs \<inter> fst ` set acc = {} \<Longrightarrow>
     fold (\<lambda>(c, oc). AList.update c (f oc)) xs acc = acc @ map (\<lambda>(c, oc). (c, f oc)) xs"
proof (induction xs arbitrary: acc)
  case Nil show ?case by simp
next
  case (Cons x xs)
  obtain c oc where x: "x = (c, oc)" by (cases x) blast
  have fresh: "c \<notin> fst ` set acc" using Cons.prems(2) by (auto simp: x)
  have d: "distinct (map fst xs)" using Cons.prems(1) by simp
  have i: "fst ` set xs \<inter> fst ` set (acc @ [(c, f oc)]) = {}"
    using Cons.prems by (auto simp: x)
  show ?case
    by (simp add: x update_fresh [OF fresh] Cons.IH [OF d i])
qed

text \<open>
  C9: \<open>batch_get_kline\<close> is a total function into result maps (nothing is raised out of
  it). The map has one entry for each requested symbol and no other; a symbol maps to the
  series of its fetch, the empty list when the fetch raised (a symbol requested twice: of
  its last fetch); for distinct symbols the map is, in request order, each symbol with its
  own series. The route rejects more than 20 symbols with status 400 and leaves the state
  as it was, whatever the fetch does: no fetch is made. From 1 to 20 symbols it returns the
  service's map.
\<close>

theorem batch_get_kline_isolates_failures:
  "distinct (map fst (snd (batch_get_kline fetch w ts_codes period source limit))) \<and>
   fst ` set (snd (batch_get_kline fetch w ts_codes period source limit)) = set ts_codes \<and>
   map_of (snd (batch_get_kline fetch w ts_codes period source limit)) =
     map_of (rev (map (\<lambda>(c, oc). (c, series_of oc))
                   (batch_outcomes fetch period source limit w ts_codes))) \<and>
   (distinct ts_codes \<longrightarrow>
      snd (batch_get_kline fetch w ts_codes period source limit) =
        map (\<lambda>(c, oc). (c, series_of oc)) (batch_outcomes fetch period source limit w ts_codes)) \<and>
   (20 < length codes \<longrightarrow>
      batch_get_kline_route fetch default_source w codes period source0 limit =
        (w, Inl (HTTPException 400 too_many_codes_msg))) \<and>
   (codes \<noteq> [] \<and> length codes \<le> 20 \<longrightarrow>
      (\<exists>src. batch_get_kline_route fetch default_source w codes period source0 limit =
         (fst (batch_get_kline fetch w codes period src limit),
          Inr \<lparr>resp_source = src, resp_period = period,
               resp_data = snd (batch_get_kline fetch w codes period src limit)\<rparr>)))"
proof -
  let ?outs = "batch_outcomes fetch period source limit w ts_codes"
  have res: "snd (batch_get_kline fetch w ts_codes period source limit) =
      fold (\<lambda>(c, oc). AList.update c (series_of oc)) ?outs []"
    by (simp add: batch_get_kline_def batch_loop_eq)
  have keys: "fst ` set ?outs = set ts_codes"
    using map_fst_batch_outcomes [of fetch period source limit w ts_codes]
    by (metis set_map)
  have 1: "distinct (map fst (snd (batch_get_kline fetch w ts_codes period source limit)))"
    unfolding res by (rule fold_update_distinct) simp
  have 2: "fst ` set (snd (batch_get_kline fetch w ts_codes period source limit)) = set ts_codes"
    unfolding res by (simp add: fold_update_keys keys)
  have 3: "map_of (snd (batch_get_kline fetch w ts_codes period source limit)) =
     map_of (rev (map (\<lambda>(c, oc). (c, series_of oc)) ?outs))"
    unfolding res by (simp add: fold_update_map_of)
  have 4: "snd (batch_get_kline fetch w ts_codes period source limit) =
        map (\<lambda>(c, oc). (c, series_of oc)) ?outs" if "distinct ts_codes"
    unfolding res using that by (simp add: fold_update_fresh)
  have 5: "batch_get_kline_route fetch default_source w codes period source0 limit =
        (w, Inl (HTTPException 400 too_many_codes_msg))" if "20 < length codes"
    using that by (auto simp: batch_get_kline_route_def)
  have 6: "\<exists>src. batch_get_kline_route fetch default_source w codes period source0 limit =
         (fst (batch_get_kline fetch w codes period src limit),
          Inr \<lparr>resp_source = src, resp_period = period,
               resp_data = snd (batch_get_kline fetch w codes period src limit)\<rparr>)"
    if "codes \<noteq> [] \<and> length codes \<le> 20"
    using that by (simp add: batch_get_kline_route_def Let_def split: prod.split)
  from 1 2 3 4 5 6 show ?thesis by blast
qed

theorem batch_get_kline_isolates_failures_witness:
  "snd (batch_get_kline logging_fetch [] [''A'', ''B'', ''C''] ''daily'' ''eastmoney'' 100) =
     [(''A'', [1]), (''B'', []), (''C'', [1])] \<and>
   batch_get_kline_route logging_fetch EASTMONEY [] (replicate 21 ''A'') ''daily'' None 100 =
     ([], Inl (HTTPException 400 too_many_codes_msg))"
proof -
  have d: "distinct [''A'', ''B'', ''C'']" by simp
  have n: "20 < length (replicate 21 ''A'')" by simp
  note t = batch_get_kline_isolates_failures [of logging_fetch "[]" "[''A'', ''B'', ''C'']"
      "''daily''" "''eastmoney''" 100 "replicate 21 ''A''" EASTMONEY None]
  have a: "snd (batch_get_kline logging_fetch [] [''A'', ''B'', ''C''] ''daily'' ''eastmoney'' 100) =
     [(''A'', [1]), (''B'', []), (''C'', [1])]"
    using t d by (simp add: logging_fetch_def series_of_def)
  have b: "batch_get_kline_route logging_fetch EASTMONEY [] (replicate 21 ''A'') ''daily'' None 100 =
     ([], Inl (HTTPException 400 too_many_codes_msg))"
    using t n by blast
  from a b show ?thesis by (rule conjI)
qed

section \<open>Properties of the in-process store\<close>

lemma fold_del_key_cache:
  "mem_cache (fold del_key ks c) = fold AList.delete ks (mem_cache c)"
  by (induction ks arbitrary: c) (simp_all add: del_key_def)

lemma fold_del_key_max_size [simp]:
  "mem_max_size (fold del_key ks c) = mem_max_size c"
  by (induction ks arbitrary: c) (simp_all add: del_key_def)

lemma fold_delete_filter:
  "fold AList.delete ks al = filter (\<lambda>(k, v). k \<notin> set ks) al"
proof (induction ks arbitrary: al)
  case Nil show ?case by simp
next
  case (Cons k ks)
  have "filter (\<lambda>(k', v). k' \<notin> set ks) (AList.delete k al) =
        filter (\<lambda>(k', v). k' \<notin> set (k # ks)) al"
    by (induction al) (auto simp: AList.delete_eq)
  then show ?case by (simp add: Cons.IH)
qed

lemma fold_delete_oldest:
  "distinct (map fst al) \<Longrightarrow> fold AList.delete (take n (map fst al)) al = drop n al"
proof (induction al arbitrary: n)
  case Nil show ?case by simp
next
  case (Cons p al)
  show ?case
  proof (cases n)
    case 0 then show ?thesis by simp
  next
    case (Suc n')
    obtain k v where p: "p = (k, v)" by (cases p) blast
    have "k \<notin> fst ` set al" using Cons.prems by (auto simp: p)
    then have "AList.delete k al = al" by simp
    moreover have "distinct (map fst al)" using Cons.prems by simp
    ultimately show ?thesis
      by (simp add: Suc p Cons.IH)
  qed
qed

lemma length_fold_delete: "length (fold AList.delete ks al) \<le> length al"
  by (simp add: fold_delete_filter)

lemma distinct_fold_delete:
  "distinct (map fst al) \<Longrightarrow> distinct (map fst (fold AList.delete ks al))"
  by (simp add: fold_delete_filter distinct_map_filter)

lemma length_update_le: "length (AList.update k v al) \<le> Suc (length al)"
  by (induction al) auto

text \<open>What \<open>_cleanup\<close> leaves in \<open>_cache\<close>, for a dict (distinct keys).\<close>

lemma cleanup_cache:
  assumes "distinct (map fst (mem_cache c))" "0 \<le> mem_max_size c"
  shows "mem_cache (InMemoryCache_cleanup now c) =
     (let live = filter (\<lambda>(k, v). k \<notin> set (map fst (filter (\<lambda>(k, e). e < now) (mem_expiry c))))
                   (mem_cache c)
      in if mem_max_size c \<le> int (length live)
         then drop (nat (mem_max_size c div 5)) live else live)"
proof -
  define live where "live = filter (\<lambda>(k, v). k \<notin> set (map fst (filter (\<lambda>(k, e). e < now) (mem_expiry c))))
                   (mem_cache c)"
  define c1 where "c1 = fold del_key (map fst (filter (\<lambda>(k, e). e < now) (mem_expiry c))) c"
  have l: "mem_cache c1 = live"
    by (simp add: c1_def fold_del_key_cache fold_delete_filter live_def)
  have m: "mem_max_size c1 = mem_max_size c"
    by (simp add: c1_def)
  have d: "distinct (map fst live)"
    using assms(1) by (simp add: live_def distinct_map_filter)
  have t: "to_remove_of (mem_max_size c) = mem_max_size c div 5" "0 \<le> mem_max_size c div 5"
    using assms(2) by (simp_all add: to_remove_of_def)
  have "InMemoryCache_cleanup now c =
      (if mem_max_size c \<le> int (length live)
       then fold del_key (take (nat (mem_max_size c div 5)) (map fst live)) c1 else c1)"
    unfolding InMemoryCache_cleanup_def Let_def c1_def [symmetric] l m t py_slice_to_def
    using t(2) by simp
  then show ?thesis
    unfolding live_def [symmetric] Let_def
    by (simp add: fold_del_key_cache l fold_delete_oldest [OF d])
qed

lemma cleanup_max_size [simp]:
  "mem_max_size (InMemoryCache_cleanup now c) = mem_max_size c"
  by (simp add: InMemoryCache_cleanup_def Let_def)

lemma set_max_size [simp]:
  "mem_max_size (InMemoryCache_set now c key val ex) = mem_max_size c"
  by (simp add: InMemoryCache_set_def Let_def split: option.split)

lemma set_cache:
  "mem_cache (InMemoryCache_set now c key val ex) =
     AList.update key val
       (if mem_max_size c \<le> int (length (mem_cache c))
        then mem_cache (InMemoryCache_cleanup now c) else mem_cache c)"
  by (simp add: InMemoryCache_set_def Let_def split: option.split)

text \<open>
  C8 as stated fails: a store of capacity 4 that holds four entries, none expired, holds
  five after a write of a new key (a fifth of the capacity, truncated, is no entry).
\<close>

theorem small_capacity_exceeded:
  "\<not> int (length (mem_cache (InMemoryCache_set 0 full4 ''e'' 5 None))) \<le> mem_max_size full4"
  by (simp add: InMemoryCache_set_def InMemoryCache_cleanup_def full4_def Let_def
      to_remove_of_def py_slice_to_def)

text \<open>
  C8, amended: for a capacity of at least 5 and a store within its capacity, a write
  to a store that holds fewer entries than the capacity only inserts; a write to a full
  store first removes every entry whose expiry is before now, then, if the store is still
  full, the oldest fifth of the capacity (rounded down) in insertion order, and then
  inserts. The store stays a dict within the same capacity.
\<close>

theorem set_keeps_within_capacity:
  assumes cap: "5 \<le> mem_max_size c"
    and inv: "int (length (mem_cache c)) \<le> mem_max_size c"
    and dist: "distinct (map fst (mem_cache c))"
  shows "mem_cache (InMemoryCache_set now c key val ex) =
     AList.update key val
       (if int (length (mem_cache c)) < mem_max_size c then mem_cache c
        else let live = filter (\<lambda>(k, v). k \<notin> set (map fst (filter (\<lambda>(k, e). e < now) (mem_expiry c))))
                          (mem_cache c)
             in if int (length live) < mem_max_size c then live
                else drop (nat (mem_max_size c div 5)) live) \<and>
   int (length (mem_cache (InMemoryCache_set now c key val ex))) \<le> mem_max_size c \<and>
   mem_max_size (InMemoryCache_set now c key val ex) = mem_max_size c \<and>
   distinct (map fst (mem_cache (InMemoryCache_set now c key val ex)))"
proof -
  define live where "live = filter (\<lambda>(k, v). k \<notin> set (map fst (filter (\<lambda>(k, e). e < now) (mem_expiry c))))
                          (mem_cache c)"
  define base where "base =
       (if int (length (mem_cache c)) < mem_max_size c then mem_cache c
        else if int (length live) < mem_max_size c then live
             else drop (nat (mem_max_size c div 5)) live)"
  have nn: "0 \<le> mem_max_size c" using cap by simp
  have eq: "mem_cache (InMemoryCache_set now c key val ex) = AList.update key val base"
    unfolding set_cache cleanup_cache [OF dist nn] base_def live_def Let_def
    by (simp add: not_less)
  have ll: "length live \<le> length (mem_cache c)"
    by (simp add: live_def)
  have dl: "distinct (map fst live)"
    using dist by (simp add: live_def distinct_map_filter)
  have fifth: "1 \<le> nat (mem_max_size c div 5)"
    using cap by simp
  have len: "int (length base) < mem_max_size c"
    unfolding base_def using inv ll fifth cap by auto
  have db: "distinct (map fst base)"
    unfolding base_def using dist dl by (simp add: distinct_drop drop_map [symmetric])
  have 1: "int (length (mem_cache (InMemoryCache_set now c key val ex))) \<le> mem_max_size c"
    unfolding eq using len length_update_le [of key val base] by linarith
  have 2: "distinct (map fst (mem_cache (InMemoryCache_set now c key val ex)))"
    unfolding eq using db by (rule distinct_update)
  show ?thesis
    using eq 1 2 unfolding base_def live_def Let_def by simp
qed

theorem set_keeps_within_capacity_witness:
  "mem_cache (InMemoryCache_set 100 full5 ''f'' 6 None) =
     [(''a'', 1), (''b'', 2), (''d'', 4), (''e'', 5), (''f'', 6)] \<and>
   mem_cache (InMemoryCache_set 100 full5_fresh ''f'' 6 None) =
     [(''b'', 2), (''c'', 3), (''d'', 4), (''e'', 5), (''f'', 6)] \<and>
   int (length (mem_cache (InMemoryCache_set 100 full5_fresh ''f'' 6 None))) \<le> 5"
proof -
  have a: "mem_cache (InMemoryCache_set 100 full5 ''f'' 6 None) =
     [(''a'', 1), (''b'', 2), (''d'', 4), (''e'', 5), (''f'', 6)]"
    using set_keeps_within_capacity [of full5 100 "''f''" 6 None]
    by (simp add: full5_def)
  have b: "mem_cache (InMemoryCache_set 100 full5_fresh ''f'' 6 None) =
     [(''b'', 2), (''c'', 3), (''d'', 4), (''e'', 5), (''f'', 6)] \<and>
    int (length (mem_cache (InMemoryCache_set 100 full5_fresh ''f'' 6 None))) \<le> 5"
    using set_keeps_within_capacity [of full5_fresh 100 "''f''" 6 None]
    by (simp add: full5_fresh_def)
  from a b show ?thesis by blast
qed

section \<open>Properties of the indicators\<close>

lemma length_price_changes [simp]: "length (price_changes xs) = length xs - 1"
  by (induction xs rule: price_changes.induct) simp_all

lemma nth_price_changes:
  "i + 1 < length xs \<Longrightarrow> price_changes xs ! i = xs ! (i + 1) - xs ! i"
proof (induction xs arbitrary: i rule: price_changes.induct)
  case (1 a b rest)
  then show ?case by (cases i) simp_all
qed simp_all

lemma sum_list_all_zero: "(\<And>x. x \<in> set xs \<Longrightarrow> x = (0::real)) \<Longrightarrow> sum_list xs = 0"
  by (induction xs) simp_all

lemma length_rsi_loop [simp]: "length (rsi_loop period avg_gain avg_loss xs) = length xs"
  by (induction xs arbitrary: avg_gain avg_loss) auto

lemma rsi_first_value:
  assumes "0 < period" "period + 1 \<le> length prices"
  shows "\<exists>r. calculate_rsi prices period = Inr r \<and> length r = length prices \<and>
           take period r = replicate period None \<and>
           r ! period =
             Some (rsi_value
               (sum_list (take period (map (\<lambda>change. if 0 < change then change else 0)
                                          (price_changes prices))) / real period)
               (sum_list (take period (map (\<lambda>change. if 0 < change then 0 else \<bar>change\<bar>)
                                          (price_changes prices))) / real period))"
  using assms
  by (simp add: calculate_rsi_def Let_def nth_append)

lemma no_loss_in_warm_up:
  assumes "period + 1 \<le> length prices" "\<forall>i<period. prices ! i < prices ! (i + 1)"
  shows "sum_list (take period (map (\<lambda>change. if 0 < change then 0 else \<bar>change\<bar>)
                                    (price_changes prices))) = 0"
proof (rule sum_list_all_zero)
  fix x
  assume "x \<in> set (take period (map (\<lambda>change. if 0 < change then 0 else \<bar>change\<bar>)
                                    (price_changes prices)))"
  then obtain i where i: "i < period" "i < length (price_changes prices)"
    and x: "x = (\<lambda>change. if 0 < change then 0 else \<bar>change\<bar>) (price_changes prices ! i)"
    by (auto simp: in_set_conv_nth)
  have "i + 1 < length prices" using i(1) assms(1) by simp
  then have "price_changes prices ! i = prices ! (i + 1) - prices ! i"
    by (rule nth_price_changes)
  moreover have "prices ! i < prices ! (i + 1)" using assms(2) i(1) by blast
  ultimately show "x = 0" using x by simp
qed

text \<open>
  C6: for a series of at least 15 prices whose first 14 differences are positive,
  \<open>calculate_rsi\<close> with period 14 returns a list of the length of the series whose first
  14 positions are \<open>None\<close> and whose position 14, the first defined one, is 100: the
  average loss over the warm-up window is 0.
\<close>

theorem rsi_100_on_rising_warm_up:
  assumes "15 \<le> length prices" "\<forall>i<14. prices ! i < prices ! (i + 1)"
  shows "\<exists>r. calculate_rsi prices 14 = Inr r \<and> length r = length prices \<and>
           take 14 r = replicate 14 None \<and> r ! 14 = Some 100"
proof -
  have l: "14 + 1 \<le> length prices" using assms(1) by simp
  have z: "sum_list (take 14 (map (\<lambda>change. if 0 < change then 0 else \<bar>change\<bar>)
                                    (price_changes prices))) = 0"
    by (rule no_loss_in_warm_up [OF l assms(2)])
  from rsi_first_value [of 14 prices] l
  show ?thesis
    by (simp add: z rsi_value_def)
qed

theorem rsi_100_on_rising_warm_up_witness:
  "\<exists>r. calculate_rsi rising15 14 = Inr r \<and> length r = 15 \<and>
           take 14 r = replicate 14 None \<and> r ! 14 = Some 100"
proof -
  have a: "15 \<le> length rising15" by (simp add: rising15_def)
  have "prices ! i < prices ! (i + 1)" if "i < 14" "prices = rising15" for i prices
  proof -
    have "i = 0 \<or> i = 1 \<or> i = 2 \<or> i = 3 \<or> i = 4 \<or> i = 5 \<or> i = 6 \<or> i = 7 \<or>
          i = 8 \<or> i = 9 \<or> i = 10 \<or> i = 11 \<or> i = 12 \<or> i = 13"
      using that(1) by arith
    then show ?thesis unfolding that(2) rising15_def by auto
  qed
  then have b: "\<forall>i<14. rising15 ! i < rising15 ! (i + 1)" by blast
  have len: "length rising15 = 15" by (simp add: rising15_def)
  from rsi_100_on_rising_warm_up [OF a b] show ?thesis
    unfolding len .
qed

lemma aligned_map_upt:
  "(\<And>i. i < n \<Longrightarrow> (f i = None \<longleftrightarrow> i + 1 < period)) \<Longrightarrow> aligned n period (map f [0..<n])"
  by (simp add: aligned_def)

lemma aligned_snoc:
  assumes "aligned a period xs" "v = None \<longleftrightarrow> a + 1 < period"
  shows "aligned (Suc a) period (xs @ [v])"
  using assms by (auto simp: aligned_def nth_append less_Suc_eq)

lemma aligned_ma:
  "0 < period \<Longrightarrow> \<exists>r. calculate_ma prices period = Inr r \<and> aligned (length prices) period r"
  by (simp add: calculate_ma_def aligned_map_upt)

lemma rsi_loop_defined: "x \<in> set (rsi_loop period avg_gain avg_loss xs) \<Longrightarrow> x \<noteq> None"
  by (induction xs arbitrary: avg_gain avg_loss) auto

lemma aligned_append_defined:
  assumes "\<And>x. x \<in> set tail \<Longrightarrow> x \<noteq> None" "warm + length tail = n"
  shows "aligned n (warm + 1) (replicate warm None @ tail)"
proof -
  have "(replicate warm None @ tail) ! i = None \<longleftrightarrow> i + 1 < warm + 1" if "i < n" for i
  proof (cases "i < warm")
    case True then show ?thesis by (simp add: nth_append)
  next
    case False
    then have "i - warm < length tail" using that assms(2) by simp
    then have "tail ! (i - warm) \<in> set tail" by simp
    then have "tail ! (i - warm) \<noteq> None" by (rule assms(1))
    then show ?thesis using False by (simp add: nth_append)
  qed
  then show ?thesis using assms(2) by (simp add: aligned_def)
qed

lemma aligned_rsi:
  assumes "0 < period"
  shows "\<exists>r. calculate_rsi prices period = Inr r \<and> aligned (length prices) (period + 1) r"
proof (cases "length prices < period + 1")
  case True
  then show ?thesis by (simp add: calculate_rsi_def aligned_def)
next
  case False
  define gains where "gains = map (\<lambda>change. if 0 < change then change else 0) (price_changes prices)"
  define losses where "losses = map (\<lambda>change. if 0 < change then 0 else \<bar>change\<bar>) (price_changes prices)"
  define tail where "tail = Some (rsi_value (sum_list (take period gains) / real period)
                                           (sum_list (take period losses) / real period)) #
       rsi_loop period (sum_list (take period gains) / real period)
         (sum_list (take period losses) / real period) (drop period (zip gains losses))"
  have eq: "calculate_rsi prices period = Inr (replicate period None @ tail)"
    using False assms
    by (simp add: calculate_rsi_def Let_def tail_def gains_def losses_def)
  have d: "x \<noteq> None" if "x \<in> set tail" for x
    using that rsi_loop_defined by (auto simp: tail_def)
  have l: "period + length tail = length prices"
    using False by (simp add: tail_def gains_def losses_def)
  show ?thesis
    unfolding eq using aligned_append_defined [OF d l] by simp
qed

lemma length_ema_loop [simp]: "length (ema_loop m prev ps) = length ps"
  by (induction ps arbitrary: prev) simp_all

lemma length_calculate_ema [simp]: "length (calculate_ema prices period) = length prices"
  by (simp add: calculate_ema_def split: list.split)

lemma macd_lengths:
  "calculate_macd prices fast slow signal =
     (if length prices < slow then \<lparr>macd_macd = [], macd_signal = [], macd_histogram = []\<rparr>
      else calculate_macd prices fast slow signal) \<and>
   (slow \<le> length prices \<longrightarrow>
      length (macd_macd (calculate_macd prices fast slow signal)) = length prices \<and>
      length (macd_signal (calculate_macd prices fast slow signal)) = length prices \<and>
      length (macd_histogram (calculate_macd prices fast slow signal)) = length prices)"
  by (simp add: calculate_macd_def Let_def)

lemma aligned_bollinger:
  assumes "0 < period"
  shows "if length prices < period
         then calculate_bollinger_bands prices period std_dev =
                Inr \<lparr>bb_upper = [], bb_middle = [], bb_lower = []\<rparr>
         else \<exists>r. calculate_bollinger_bands prices period std_dev = Inr r \<and>
                aligned (length prices) period (bb_upper r) \<and>
                aligned (length prices) period (bb_middle r) \<and>
                aligned (length prices) period (bb_lower r)"
  using assms by (simp add: calculate_bollinger_bands_def aligned_map_upt)

lemma window_nonempty:
  "0 < period \<Longrightarrow> period \<le> i + 1 \<Longrightarrow> i < length xs \<Longrightarrow> window xs period i \<noteq> []"
  by (simp add: window_def)

lemma py_max_nonempty: "xs \<noteq> [] \<Longrightarrow> \<exists>m. py_max xs = Inr m"
  by (cases xs) simp_all

lemma py_min_nonempty: "xs \<noteq> [] \<Longrightarrow> \<exists>m. py_min xs = Inr m"
  by (cases xs) simp_all

lemma last_value_aligned:
  assumes "aligned a period xs" "period \<le> a" "0 < period"
  shows "\<exists>v. last_value xs = Inr v"
proof -
  have l: "length xs = a" and n: "xs \<noteq> []" using assms by (auto simp: aligned_def)
  have "xs ! (a - 1) \<noteq> None"
    using assms by (auto simp: aligned_def)
  then have "last xs \<noteq> None" using n l by (simp add: last_conv_nth)
  then show ?thesis using n by (auto simp: last_value_def split: option.split)
qed

lemma kdj_step_warm:
  "i + 1 < period \<Longrightarrow>
   kdj_loop high low close period (i # is) acc =
   kdj_loop high low close period is
     \<lparr>kdj_k = kdj_k acc @ [None], kdj_d = kdj_d acc @ [None], kdj_j = kdj_j acc @ [None]\<rparr>"
  by simp

lemma kdj_step_defined:
  assumes "\<not> i + 1 < period"
    and "py_max (window high period i) = Inr highest"
    and "py_min (window low period i) = Inr lowest"
    and "i + 1 = period \<or> (last_value (kdj_k acc) = Inr pk \<and> last_value (kdj_d acc) = Inr pd)"
  shows "\<exists>vk vd vj. kdj_loop high low close period (i # is) acc =
           kdj_loop high low close period is
             \<lparr>kdj_k = kdj_k acc @ [Some vk], kdj_d = kdj_d acc @ [Some vd],
              kdj_j = kdj_j acc @ [Some vj]\<rparr>"
proof -
  define rsv where "rsv = (if highest = lowest then 50
                           else (close ! i - lowest) / (highest - lowest) * 100)"
  show ?thesis
  proof (cases "i + 1 = period")
    case True
    have "kdj_loop high low close period (i # is) acc =
           kdj_loop high low close period is
             \<lparr>kdj_k = kdj_k acc @ [Some (py_round2 rsv)], kdj_d = kdj_d acc @ [Some (py_round2 rsv)],
              kdj_j = kdj_j acc @ [Some (py_round2 (3 * rsv - 2 * rsv))]\<rparr>"
      unfolding rsv_def
      by (simp only: kdj_loop.simps Let_def assms(2) assms(3) sum.case if_not_P [OF assms(1)]
          if_P [OF True])
    then show ?thesis by blast
  next
    case False
    then have l: "last_value (kdj_k acc) = Inr pk" "last_value (kdj_d acc) = Inr pd"
      using assms(4) by simp_all
    have "kdj_loop high low close period (i # is) acc =
           kdj_loop high low close period is
             \<lparr>kdj_k = kdj_k acc @ [Some (py_round2 (2 / 3 * pk + 1 / 3 * rsv))],
              kdj_d = kdj_d acc @ [Some (py_round2 (2 / 3 * pd + 1 / 3 * (2 / 3 * pk + 1 / 3 * rsv)))],
              kdj_j = kdj_j acc @
                [Some (py_round2 (3 * (2 / 3 * pk + 1 / 3 * rsv) -
                                  2 * (2 / 3 * pd + 1 / 3 * (2 / 3 * pk + 1 / 3 * rsv))))]\<rparr>"
      unfolding rsv_def
      by (simp only: kdj_loop.simps Let_def assms(2) assms(3) l sum.case if_not_P [OF assms(1)]
          if_not_P [OF False])
    then show ?thesis by blast
  qed
qed

lemma kdj_loop_aligned:
  assumes "0 < period" "n \<le> length high" "n \<le> length low"
  shows "a \<le> n \<Longrightarrow> aligned a period (kdj_k acc) \<Longrightarrow> aligned a period (kdj_d acc) \<Longrightarrow>
         aligned a period (kdj_j acc) \<Longrightarrow>
         \<exists>r. kdj_loop high low close period [a..<n] acc = Inr r \<and>
             aligned n period (kdj_k r) \<and> aligned n period (kdj_d r) \<and> aligned n period (kdj_j r)"
proof (induction "n - a" arbitrary: a acc)
  case 0
  then have "a = n" by simp
  then show ?case using "0.prems" by simp
next
  case (Suc k)
  have an: "a < n" using Suc.hyps(2) by simp
  have upt: "[a..<n] = a # [Suc a..<n]" using an by (simp add: upt_conv_Cons)
  have k: "k = n - Suc a" "Suc a \<le> n" using Suc.hyps(2) by simp_all
  show ?case
  proof (cases "a + 1 < period")
    case True
    let ?acc = "\<lparr>kdj_k = kdj_k acc @ [None], kdj_d = kdj_d acc @ [None], kdj_j = kdj_j acc @ [None]\<rparr>"
    have "aligned (Suc a) period (kdj_k ?acc)" "aligned (Suc a) period (kdj_d ?acc)"
      "aligned (Suc a) period (kdj_j ?acc)"
      using Suc.prems True by (simp_all add: aligned_snoc)
    from Suc.hyps(1) [OF k(1) k(2) this]
    show ?thesis
      unfolding upt kdj_step_warm [OF True] .
  next
    case False
    have "window high period a \<noteq> []" "window low period a \<noteq> []"
      using False an assms by (simp_all add: window_nonempty)
    then obtain highest lowest where hl: "py_max (window high period a) = Inr highest"
      "py_min (window low period a) = Inr lowest"
      using py_max_nonempty py_min_nonempty by blast
    have "a + 1 = period \<or>
          (\<exists>pk pd. last_value (kdj_k acc) = Inr pk \<and> last_value (kdj_d acc) = Inr pd)"
    proof (cases "a + 1 = period")
      case True then show ?thesis by simp
    next
      case ne: False
      then have "period \<le> a" using False by simp
      then show ?thesis
        using last_value_aligned [OF Suc.prems(2) _ assms(1)]
          last_value_aligned [OF Suc.prems(3) _ assms(1)] by blast
    qed
    then obtain pk pd where
      "a + 1 = period \<or> (last_value (kdj_k acc) = Inr pk \<and> last_value (kdj_d acc) = Inr pd)"
      by blast
    from kdj_step_defined [OF False hl this]
    obtain vk vd vj where step: "kdj_loop high low close period (a # [Suc a..<n]) acc =
           kdj_loop high low close period [Suc a..<n]
             \<lparr>kdj_k = kdj_k acc @ [Some vk], kdj_d = kdj_d acc @ [Some vd],
              kdj_j = kdj_j acc @ [Some vj]\<rparr>"
      by blast
    let ?acc = "\<lparr>kdj_k = kdj_k acc @ [Some vk], kdj_d = kdj_d acc @ [Some vd],
              kdj_j = kdj_j acc @ [Some vj]\<rparr>"
    have "aligned (Suc a) period (kdj_k ?acc)" "aligned (Suc a) period (kdj_d ?acc)"
      "aligned (Suc a) period (kdj_j ?acc)"
      using Suc.prems False by (simp_all add: aligned_snoc)
    from Suc.hyps(1) [OF k(1) k(2) this]
    show ?thesis
      unfolding upt step .
  qed
qed

lemma aligned_kdj:
  assumes "0 < period" "length high = length close" "length low = length close"
  shows "if length close < period
         then calculate_kdj high low close period = Inr \<lparr>kdj_k = [], kdj_d = [], kdj_j = []\<rparr>
         else \<exists>r. calculate_kdj high low close period = Inr r \<and>
                aligned (length close) period (kdj_k r) \<and>
                aligned (length close) period (kdj_d r) \<and>
                aligned (length close) period (kdj_j r)"
proof (cases "length close < period")
  case True
  then show ?thesis by (simp add: calculate_kdj_def)
next
  case False
  have e: "aligned 0 period (kdj_k \<lparr>kdj_k = [], kdj_d = [], kdj_j = []\<rparr>)"
    "aligned 0 period (kdj_d \<lparr>kdj_k = [], kdj_d = [], kdj_j = []\<rparr>)"
    "aligned 0 period (kdj_j \<lparr>kdj_k = [], kdj_d = [], kdj_j = []\<rparr>)"
    by (simp_all add: aligned_def)
  have "length close \<le> length high" "length close \<le> length low" using assms by simp_all
  from kdj_loop_aligned [OF assms(1) this _ e, of close]
  show ?thesis using False by (simp add: calculate_kdj_def)
qed

text \<open>
  C5 as stated fails: on a series shorter than the slow window \<open>calculate_macd\<close> returns
  empty lists, not lists of the length of the series.
\<close>

theorem macd_short_series_not_aligned:
  "macd_macd (calculate_macd [1, 2, 3] 12 26 9) = [] \<and>
   length (macd_macd (calculate_macd [1, 2, 3] 12 26 9)) \<noteq> length [1, 2, 3 :: real]"
  by (simp add: calculate_macd_def)

text \<open>
  C5, amended: for a window of at least one point, \<open>calculate_ma\<close> and \<open>calculate_rsi\<close>
  return a list of the length of the series, which holds \<open>None\<close> exactly at the positions
  before the warm-up (the first \<open>period - 1\<close> for the moving average, the first \<open>period\<close>
  for the RSI). \<open>calculate_kdj\<close> (on high, low and close lists of one length) and
  \<open>calculate_bollinger_bands\<close> return such lists when the series has at least \<open>period\<close>
  points and empty lists when it is shorter. \<open>calculate_macd\<close> returns three lists of the
  length of the series when it has at least \<open>slow\<close> points and three empty lists when it
  is shorter; its lists hold numbers at every position (they have no undefined marker).
\<close>

theorem indicators_aligned:
  assumes "0 < period" "length high = length close" "length low = length close"
  shows "(\<exists>r. calculate_ma prices period = Inr r \<and> aligned (length prices) period r) \<and>
    (\<exists>r. calculate_rsi prices period = Inr r \<and> aligned (length prices) (period + 1) r) \<and>
    (if length prices < slow
     then calculate_macd prices fast slow signal =
            \<lparr>macd_macd = [], macd_signal = [], macd_histogram = []\<rparr>
     else length (macd_macd (calculate_macd prices fast slow signal)) = length prices \<and>
          length (macd_signal (calculate_macd prices fast slow signal)) = length prices \<and>
          length (macd_histogram (calculate_macd prices fast slow signal)) = length prices) \<and>
    (if length close < period
     then calculate_kdj high low close period = Inr \<lparr>kdj_k = [], kdj_d = [], kdj_j = []\<rparr>
     else \<exists>r. calculate_kdj high low close period = Inr r \<and>
            aligned (length close) period (kdj_k r) \<and>
            aligned (length close) period (kdj_d r) \<and>
            aligned (length close) period (kdj_j r)) \<and>
    (if length prices < period
     then calculate_bollinger_bands prices period std_dev =
            Inr \<lparr>bb_upper = [], bb_middle = [], bb_lower = []\<rparr>
     else \<exists>r. calculate_bollinger_bands prices period std_dev = Inr r \<and>
            aligned (length prices) period (bb_upper r) \<and>
            aligned (length prices) period (bb_middle r) \<and>
            aligned (length prices) period (bb_lower r))"
proof -
  have m: "if length prices < slow
     then calculate_macd prices fast slow signal =
            \<lparr>macd_macd = [], macd_signal = [], macd_histogram = []\<rparr>
     else length (macd_macd (calculate_macd prices fast slow signal)) = length prices \<and>
          length (macd_signal (calculate_macd prices fast slow signal)) = length prices \<and>
          length (macd_histogram (calculate_macd prices fast slow signal)) = length prices"
    by (simp add: calculate_macd_def Let_def)
  from aligned_ma [OF assms(1), of prices] aligned_rsi [OF assms(1), of prices] m
    aligned_kdj [OF assms] aligned_bollinger [OF assms(1), of prices std_dev]
  show ?thesis by (intro conjI)
qed

theorem indicators_aligned_witness:
  "(\<exists>r. calculate_ma [1, 2, 4] 2 = Inr r \<and> aligned 3 2 r) \<and>
   (\<exists>r. calculate_rsi [1, 2, 4] 2 = Inr r \<and> aligned 3 3 r) \<and>
   length (macd_macd (calculate_macd [1, 2, 4] 1 2 1)) = 3 \<and>
   length (macd_signal (calculate_macd [1, 2, 4] 1 2 1)) = 3 \<and>
   length (macd_histogram (calculate_macd [1, 2, 4] 1 2 1)) = 3 \<and>
   (\<exists>r. calculate_kdj [2, 3, 5] [0, 1, 2] [1, 2, 4] 2 = Inr r \<and>
      aligned 3 2 (kdj_k r) \<and> aligned 3 2 (kdj_d r) \<and> aligned 3 2 (kdj_j r)) \<and>
   (\<exists>r. calculate_bollinger_bands [1, 2, 4] 2 2 = Inr r \<and>
      aligned 3 2 (bb_upper r) \<and> aligned 3 2 (bb_middle r) \<and> aligned 3 2 (bb_lower r)) \<and>
   calculate_ma [1, 2, 4] 2 = Inr [None, Some (3 / 2), Some 3]"
proof -
  have v: "calculate_ma [1, 2, 4] 2 = Inr [None, Some (3 / 2), Some 3]"
    by (simp add: calculate_ma_def window_def upt_rec)
  have h: "(0::nat) < 2" "length [2, 3, 5 :: real] = length [1, 2, 4 :: real]"
    "length [0, 1, 2 :: real] = length [1, 2, 4 :: real]"
    by simp_all
  from indicators_aligned [OF h, of "[1, 2, 4]" 2 1 1 2] v
  show ?thesis by (simp add: numeral_3_eq_3)
qed

lemma length_one_to_twenty: "length one_to_twenty = 20"
  by (simp add: one_to_twenty_def)

lemma window_one_to_twenty: "window one_to_twenty 20 19 = one_to_twenty"
  by (simp add: window_def one_to_twenty_def)

lemma ma_one_to_twenty: "window_ma one_to_twenty 20 = 21 / 2"
  by (simp add: window_ma_def one_to_twenty_def)

lemma std_one_to_twenty: "window_std one_to_twenty 20 = sqrt (133 / 4)"
  by (simp add: window_std_def ma_one_to_twenty) (simp add: one_to_twenty_def power2_eq_square)

lemma sqrt_bounds: "1153 / 200 < sqrt (133 / 4)" "sqrt (133 / 4) < 2307 / 400"
proof -
  show "1153 / 200 < sqrt (133 / 4)"
    by (rule real_less_rsqrt) (simp add: power2_eq_square)
  show "sqrt (133 / 4) < 2307 / 400"
    by (rule real_less_lsqrt) (simp_all add: power2_eq_square)
qed

lemma round_middle: "py_round2 (21 / 2) = 21 / 2"
  by (simp add: py_round2_def Let_def)

lemma round_upper: "py_round2 (21 / 2 + 2 * sqrt (133 / 4)) = 2203 / 100"
proof -
  have f: "\<lfloor>(21 / 2 + 2 * sqrt (133 / 4)) * 100\<rfloor> = 2203"
    using sqrt_bounds by (intro floor_unique) simp_all
  have d: "(21 / 2 + 2 * sqrt (133 / 4)) * 100 - of_int 2203 < 1 / 2"
    using sqrt_bounds by simp
  show ?thesis
    unfolding py_round2_def Let_def f using d by simp
qed

lemma round_lower: "py_round2 (21 / 2 - 2 * sqrt (133 / 4)) = - (103 / 100)"
proof -
  have f: "\<lfloor>(21 / 2 - 2 * sqrt (133 / 4)) * 100\<rfloor> = - 104"
    using sqrt_bounds by (intro floor_unique) simp_all
  have d: "1 / 2 < (21 / 2 - 2 * sqrt (133 / 4)) * 100 - of_int (- 104)"
    using sqrt_bounds by simp
  show ?thesis
    unfolding py_round2_def Let_def f using d by simp
qed

lemma bollinger_one_to_twenty:
  "\<exists>r. calculate_bollinger_bands one_to_twenty 20 2 = Inr r \<and>
       length (bb_upper r) = 20 \<and> length (bb_middle r) = 20 \<and> length (bb_lower r) = 20 \<and>
       bb_upper r ! 19 = Some (2203 / 100) \<and>
       bb_middle r ! 19 = Some (21 / 2) \<and>
       bb_lower r ! 19 = Some (- (103 / 100))"
  by (simp add: calculate_bollinger_bands_def length_one_to_twenty window_one_to_twenty
      ma_one_to_twenty std_one_to_twenty round_middle round_upper round_lower)

text \<open>
  C7 as stated fails: each band is rounded to two decimals, so at the last index the upper
  band is 22.03 and the lower band -1.03, and their difference 23.06 is not 4 times the
  population standard deviation of the window (about 23.0651).
\<close>

theorem bollinger_width_is_rounded:
  "bb_upper (projr (calculate_bollinger_bands one_to_twenty 20 2)) ! 19 = Some (2203 / 100) \<and>
   bb_lower (projr (calculate_bollinger_bands one_to_twenty 20 2)) ! 19 = Some (- (103 / 100)) \<and>
   2203 / 100 - (- (103 / 100)) \<noteq> 4 * window_std one_to_twenty 20"
proof -
  obtain r where r: "calculate_bollinger_bands one_to_twenty 20 2 = Inr r"
    "bb_upper r ! 19 = Some (2203 / 100)" "bb_lower r ! 19 = Some (- (103 / 100))"
    using bollinger_one_to_twenty by blast
  have "sqrt (133 / 4) < 2307 / 400" by (rule sqrt_bounds(2))
  then have "2203 / 100 - (- (103 / 100)) \<noteq> 4 * window_std one_to_twenty 20"
    unfolding std_one_to_twenty
    using sqrt_bounds(1) by simp
  then show ?thesis using r by simp
qed

text \<open>
  C7, amended: for the prices 1 to 20 with a window of 20 and a factor of 2, the middle
  band at the last index is the arithmetic mean of the 20 values, 10.5; the upper and the
  lower band there are the mean plus and minus twice the population standard deviation,
  each rounded to two decimals: 22.03 and -1.03. Their difference, 23.06, is within 0.01
  of 4 times the population standard deviation.
\<close>

theorem bollinger_one_to_twenty_bands:
  "\<exists>r. calculate_bollinger_bands one_to_twenty 20 2 = Inr r \<and>
       length (bb_middle r) = 20 \<and>
       bb_middle r ! 19 = Some (sum_list one_to_twenty / 20) \<and>
       bb_upper r ! 19 = Some (py_round2 (sum_list one_to_twenty / 20 + 2 * window_std one_to_twenty 20)) \<and>
       bb_lower r ! 19 = Some (py_round2 (sum_list one_to_twenty / 20 - 2 * window_std one_to_twenty 20)) \<and>
       bb_upper r ! 19 = Some (2203 / 100) \<and>
       bb_lower r ! 19 = Some (- (103 / 100)) \<and>
       \<bar>(2203 / 100 - (- (103 / 100))) - 4 * window_std one_to_twenty 20\<bar> \<le> 1 / 100"
proof -
  have m: "sum_list one_to_twenty / 20 = 21 / 2"
    by (simp add: one_to_twenty_def)
  have w: "\<bar>(2203 / 100 - (- (103 / 100))) - 4 * window_std one_to_twenty 20\<bar> \<le> 1 / 100"
    unfolding std_one_to_twenty using sqrt_bounds by simp
  show ?thesis
    using bollinger_one_to_twenty w
    unfolding m std_one_to_twenty round_upper round_lower by blast
qed

section \<open>Properties of the bar normalisation\<close>

lemma normalize_date_no_dash:
  "CHR ''-'' \<notin> set (bar_date (normalize_kline_data kline source)) \<and>
   bar_trade_date (normalize_kline_data kline source) = bar_date (normalize_kline_data kline source)"
  by (simp add: normalize_kline_data_def Let_def replace_dash_def)

lemma normalize_missing_fields:
  "normalize_kline_data
     \<lparr>raw_trade_date = None, raw_date = None, raw_open = None, raw_high = None, raw_low = None,
      raw_close = None, raw_vol = None, raw_volume = None, raw_amount = None,
      raw_pct_chg = None\<rparr> source =
   \<lparr>bar_trade_date = [], bar_date = [], bar_open = 0, bar_high = 0, bar_low = 0, bar_close = 0,
    bar_vol = 0, bar_volume = 0, bar_amount = 0, bar_pct_chg = 0, bar_source = source\<rparr>"
  by (simp add: normalize_kline_data_def Let_def replace_dash_def or_empty_def str_or_def
      num_or_def float_or_0_def)

lemma split_minute_line:
  "split_on CHR '','' minute_line =
     [''2024-01-02 09:35'', ''10.00'', ''10.10'', ''10.20'', ''9.90'', ''1000'', ''10050.00'',
      ''3.00'', ''1.00'', ''0.10'', ''0.50'']"
  by (simp add: minute_line_def)

text \<open>
  C4 at a minute bar of eastmoney (period \<open>5\<close>): the timestamp of the line keeps its space
  and its colon, only the dashes are removed, so the \<open>date\<close> and \<open>trade_date\<close> of the bar
  returned are not strings of digits. The numeric fields are numbers.
\<close>

theorem eastmoney_minute_bar_date:
  "eastmoney_bars float_table None None [minute_line] =
     [\<lparr>bar_trade_date = ''20240102 09:35'', bar_date = ''20240102 09:35'', bar_open = 10,
       bar_high = 51 / 5, bar_low = 99 / 10, bar_close = 101 / 10, bar_vol = 1000,
       bar_volume = 1000, bar_amount = 10050, bar_pct_chg = 1, bar_source = ''eastmoney''\<rparr>] \<and>
   \<not> all_digits ''20240102 09:35''"
  by (simp add: eastmoney_bars_def split_minute_line eastmoney_raw_kline_def float_table_def
      normalize_kline_data_def Let_def replace_dash_def or_empty_def str_or_def num_or_def
      float_or_0_def all_digits_def)

end
